theory Spec2Isabelle
  imports Main "HOL-Library.AList"
begin

section \<open>Values and imports shared by the two providers\<close>

text \<open>
  Exceptions are values.  \<open>TypeError\<close> is what JavaScript raises when a property of
  \<open>undefined\<close> or \<open>null\<close> is read or a non-function is called; \<open>FetchError\<close> is the
  rejection reason of a failed metadata request.
\<close>

datatype error = TypeError | FetchError string

text \<open>
  The values \<open>JSON.parse\<close> can produce, together with \<open>undefined\<close> (the result of reading
  an absent property).  Numbers are opaque to the code under study.
\<close>

datatype json =
    JUndefined
  | JNull
  | JBool bool
  | JNum int
  | JStr string
  | JArr "json list"
  | JObj "(string \<times> json) list"

text \<open>
  \<open>utils.js\<close> and \<open>const.js\<close> are imported by the providers but are not part of the
  sources at hand, and \<open>String.prototype.localeCompare\<close> is supplied by the host.  All
  of them are parameters of the model: every function below that depends on one of them
  takes the record \<open>E\<close> of imports.  \<open>limitInformation\<close> stands for
  \<open>addLimitInformation(parameter, point)\<close>, which annotates the point it is given; it
  returns the annotation.  The helpers applied to inbound data may throw.
\<close>

record imported =
  qualifiedNameToId :: "string \<Rightarrow> string"
  idToQualifiedName :: "string \<Rightarrow> string"
  localeCompare :: "string \<Rightarrow> string \<Rightarrow> int"
  TELEMETRY_OBJECT_TYPE :: string
  IMAGE_OBJECT_TYPE :: string
  STRING_OBJECT_TYPE :: string
  getValue :: "json \<Rightarrow> error + json"
  limitInformation :: "json \<Rightarrow> error + json"

subsection \<open>Built-ins of the language\<close>

text \<open>
  \<open>Array.prototype.sort(cmp)\<close>: a stable sort (ECMAScript 2019).  The comparator's result
  goes through \<open>ToNumber\<close>; \<open>undefined\<close> (here \<open>None\<close>) becomes \<open>NaN\<close>, which the sort
  reads as \<open>+0\<close>.  An element stays before a later one unless the comparator says
  \<open>> 0\<close>.
\<close>

definition compareValue :: "int option \<Rightarrow> int" where
  "compareValue v = (case v of None \<Rightarrow> 0 | Some n \<Rightarrow> n)"

fun insert_js :: "('a \<Rightarrow> 'a \<Rightarrow> int option) \<Rightarrow> 'a \<Rightarrow> 'a list \<Rightarrow> 'a list" where
  "insert_js cmp x [] = [x]"
| "insert_js cmp x (y # ys) =
     (if compareValue (cmp x y) \<le> 0 then x # y # ys else y # insert_js cmp x ys)"

definition sort_js :: "('a \<Rightarrow> 'a \<Rightarrow> int option) \<Rightarrow> 'a list \<Rightarrow> 'a list" where
  "sort_js cmp xs = foldr (insert_js cmp) xs []"

text \<open>\<open>s.lastIndexOf(c)\<close> is \<open>-1\<close> when \<open>c\<close> does not occur in \<open>s\<close>.\<close>

definition lastIndexOf :: "string \<Rightarrow> char \<Rightarrow> int" where
  "lastIndexOf s c =
     (case filter (\<lambda>i. s ! i = c) (rev [0..<length s]) of
        [] \<Rightarrow> - 1
      | i # _ \<Rightarrow> int i)"

text \<open>\<open>s.substring(0, n)\<close>: a negative \<open>n\<close> counts as \<open>0\<close>.\<close>

definition substring0 :: "string \<Rightarrow> int \<Rightarrow> string" where
  "substring0 s n = take (nat n) s"

text \<open>
  \<open>forEach\<close> over an array with a body that may throw: the first exception ends the
  loop, and the state reached by then stays.
\<close>

fun forEach :: "('a \<Rightarrow> 's \<Rightarrow> error option \<times> 's) \<Rightarrow> 'a list \<Rightarrow> 's \<Rightarrow> error option \<times> 's" where
  "forEach f [] s = (None, s)"
| "forEach f (x # xs) s =
     (case f x s of
        (None, s') \<Rightarrow> forEach f xs s'
      | (Some e, s') \<Rightarrow> (Some e, s'))"

section \<open>The object provider (\<open>object-provider.js\<close>)\<close>

subsection \<open>Metadata records received from the server\<close>

text \<open>
  The records of the metadata API, with the members that the builder reads.  A record
  always has its \<open>name\<close>; a member of an aggregate type is a parameter record without
  \<open>qualifiedName\<close>; an absent \<open>qualifiedName\<close>, \<open>alias\<close>, \<open>type\<close>, \<open>engType\<close>,
  \<open>member\<close> or \<open>sub\<close> is \<open>None\<close>.
\<close>

datatype aliasTag = Alias (a_namespace: string) (a_name: string)

datatype parameter =
  Parameter (p_name: string) (p_qualifiedName: "string option")
            (p_alias: "aliasTag list option") (p_type: "ptype option")
and ptype =
  PType (engType: "string option") (member: "parameter list option")

datatype spaceSystem =
  SpaceSystem (ss_name: string) (ss_qualifiedName: string) (sub: "spaceSystem list option")

subsection \<open>Domain objects\<close>

record ident =
  key :: string
  namespace :: string

record field =
  f_key :: string
  f_source :: "string option"
  f_name :: string
  f_format :: "string option"
  f_hints :: "(string \<times> nat) list"

record node =
  n_identifier :: ident
  n_name :: string
  n_type :: string
  n_location :: "string option"
  n_composition :: "ident list option"
  n_telemetry :: "field list option"

subsection \<open>State of a \<open>YamcsObjectProvider\<close>\<close>

text \<open>
  Domain objects are JavaScript objects that the code shares and mutates: the root object
  is held both by \<open>this.rootObject\<close> and by \<open>this.objects\<close>, a parent looked up in
  \<open>this.objects\<close> has its composition extended in place.  So objects live in a \<open>heap\<close>
  and are named by references (indices); an object literal allocates.

  \<open>this.objects\<close> is allocated once, in the constructor, and never reassigned; the only
  value \<open>this.dictionary\<close> and the build's promise ever take is a reference to that
  table, written \<open>ObjectsRef\<close>.

  \<open>this.dictionaryPromise\<close> is \<open>undefined\<close> or a promise that is pending or rejected (a
  build that succeeds clears the field before its promise is fulfilled).  \<open>waiting\<close> are
  the keys of the lookups whose continuations hang on the pending promise, oldest first;
  \<open>fetches\<close> counts the upstream fetch sequences started so far.
\<close>

type_synonym ref = nat

datatype dict_ref = ObjectsRef

datatype promise = Pending | Rejected error

record provider =
  folderName :: string
  providerNamespace :: string
  dictionary :: "dict_ref option"
  objects :: "string \<rightharpoonup> ref"
  heap :: "node list"
  rootObject :: ref
  dictionaryPromise :: "promise option"
  waiting :: "string list"
  fetches :: nat

definition alloc :: "node \<Rightarrow> provider \<Rightarrow> ref \<times> provider" where
  "alloc obj s = (length (heap s), s\<lparr>heap := heap s @ [obj]\<rparr>)"

definition addObject :: "ref \<Rightarrow> provider \<Rightarrow> provider" where
  "addObject r s = s\<lparr>objects := (objects s)(key (n_identifier (heap s ! r)) \<mapsto> r)\<rparr>"

text \<open>
  \<open>o.composition.push(i)\<close> on the object at \<open>r\<close>; an object without a composition (a
  telemetry leaf) makes it a \<open>TypeError\<close>.
\<close>

definition compositionPush :: "ref \<Rightarrow> ident \<Rightarrow> provider \<Rightarrow> error option \<times> provider" where
  "compositionPush r i s =
     (case n_composition (heap s ! r) of
        None \<Rightarrow> (Some TypeError, s)
      | Some c \<Rightarrow>
          (None, s\<lparr>heap := (heap s)[r := (heap s ! r)\<lparr>n_composition := Some (c @ [i])\<rparr>]\<rparr>))"

definition createRootObject :: "provider \<Rightarrow> provider" where
  "createRootObject s =
     (let (r, s1) = alloc \<lparr>n_identifier = \<lparr>key = ''spacecraft'', namespace = providerNamespace s\<rparr>,
                           n_name = folderName s, n_type = ''folder'',
                           n_location = Some ''ROOT'', n_composition = Some [],
                           n_telemetry = None\<rparr> s
      in addObject r (s1\<lparr>rootObject := r\<rparr>))"

definition YamcsObjectProvider :: "string \<Rightarrow> provider" where
  "YamcsObjectProvider f =
     createRootObject
       \<lparr>folderName = f, providerNamespace = ''taxonomy'', dictionary = None,
        objects = Map.empty, heap = [], rootObject = 0, dictionaryPromise = None,
        waiting = [], fetches = 0\<rparr>"

subsection \<open>Building the dictionary\<close>

definition addSpaceSystem :: "imported \<Rightarrow> spaceSystem \<Rightarrow> provider \<Rightarrow> error option \<times> provider" where
  "addSpaceSystem E spaceSystem s =
     (if ss_qualifiedName spaceSystem \<noteq> ''/'' then
        let composition =
              (case sub spaceSystem of
                 None \<Rightarrow> []
               | Some subs \<Rightarrow>
                   map (\<lambda>b. \<lparr>key = qualifiedNameToId E (ss_qualifiedName b),
                             namespace = providerNamespace s\<rparr>)
                       (sort_js (\<lambda>a b. Some (localeCompare E (ss_name a) (ss_name b))) subs));
            id = qualifiedNameToId E (ss_qualifiedName spaceSystem);
            (r, s1) = alloc \<lparr>n_identifier = \<lparr>key = id, namespace = providerNamespace s\<rparr>,
                             n_name = ss_name spaceSystem, n_type = ''folder'',
                             n_location = None, n_composition = Some composition,
                             n_telemetry = None\<rparr> s;
            s2 = addObject r s1
        in if lastIndexOf (ss_qualifiedName spaceSystem) CHR ''/'' = 0
           then compositionPush (rootObject s2) \<lparr>key = id, namespace = providerNamespace s2\<rparr> s2
           else (None, s2)
      else (None, s))"

definition isSuppressed :: "parameter \<Rightarrow> bool" where
  "isSuppressed parameter =
     (case p_alias parameter of
        None \<Rightarrow> False
      | Some al \<Rightarrow> list_ex (\<lambda>a. a_namespace a = ''OpenMCT:omit'') al)"

definition getParameterType :: "imported \<Rightarrow> parameter \<Rightarrow> string" where
  "getParameterType E parameter =
     (case find (\<lambda>a. a_namespace a = ''OpenMCT:type'') (case p_alias parameter of None \<Rightarrow> [] | Some al \<Rightarrow> al) of
        Some a \<Rightarrow> a_name a
      | None \<Rightarrow>
          (case p_type parameter of
             None \<Rightarrow> TELEMETRY_OBJECT_TYPE E
           | Some t \<Rightarrow>
               if engType t = Some ''integer'' \<or> engType t = Some ''float''
               then TELEMETRY_OBJECT_TYPE E
               else STRING_OBJECT_TYPE E))"

definition isAggregate :: "parameter \<Rightarrow> bool" where
  "isAggregate parameter =
     (case p_type parameter of
        None \<Rightarrow> False
      | Some t \<Rightarrow> engType t = Some ''aggregate'')"

text \<open>
  The object that \<open>addParameter\<close> builds before it stores it (the first half of the
  function's body): a folder for an aggregate, otherwise a telemetry leaf whose value field
  starts with the hint \<open>range\<close> and is then adjusted for strings and images.
\<close>

definition valueField :: "imported \<Rightarrow> string \<Rightarrow> field" where
  "valueField E t =
     (let v = \<lparr>f_key = ''value'', f_source = None, f_name = ''Value'', f_format = None,
               f_hints = [(''range'', 1)]\<rparr>
      in if t = STRING_OBJECT_TYPE E then v\<lparr>f_hints := []\<rparr>
         else if t = IMAGE_OBJECT_TYPE E
              then v\<lparr>f_hints := [(''image'', 1)], f_format := Some ''image''\<rparr>
              else v)"

definition utcField :: field where
  "utcField = \<lparr>f_key = ''utc'', f_source = Some ''timestamp'', f_name = ''Timestamp'',
               f_format = Some ''iso'', f_hints = [(''domain'', 1)]\<rparr>"

definition parameterObject :: "imported \<Rightarrow> string \<Rightarrow> parameter \<Rightarrow> string \<Rightarrow> string \<Rightarrow> node" where
  "parameterObject E ns parameter qualifiedName prefix =
     (let obj = \<lparr>n_identifier = \<lparr>key = qualifiedNameToId E qualifiedName, namespace = ns\<rparr>,
                 n_name = prefix @ p_name parameter, n_type = '''',
                 n_location = None, n_composition = None, n_telemetry = None\<rparr>
      in if isAggregate parameter
         then obj\<lparr>n_type := ''folder'', n_composition := Some []\<rparr>
         else obj\<lparr>n_type := getParameterType E parameter,
                  n_telemetry := Some [valueField E (getParameterType E parameter), utcField]\<rparr>)"

text \<open>
  \<open>addParameter\<close>: \<open>parent\<close> is what \<open>this.objects[parentId]\<close> gave, \<open>None\<close> for
  \<open>undefined\<close>.  The object is stored first; \<open>parent.composition.push\<close> comes after, and
  throws when there is no parent or the parent has no composition.  \<open>addMembers\<close> is
  the \<open>forEach\<close> over the members of an aggregate, each added below the folder \<open>r\<close>
  just made.
\<close>

fun addParameter ::
  "imported \<Rightarrow> parameter \<Rightarrow> string \<Rightarrow> ref option \<Rightarrow> string \<Rightarrow> provider \<Rightarrow> error option \<times> provider"
and addMembers ::
  "imported \<Rightarrow> parameter list \<Rightarrow> string \<Rightarrow> ref \<Rightarrow> string \<Rightarrow> provider \<Rightarrow> error option \<times> provider"
where
  "addParameter E (Parameter nm qn al ty) qualifiedName parent prefix s =
     (let name = prefix @ nm;
          (r, s1) = alloc (parameterObject E (providerNamespace s) (Parameter nm qn al ty)
                             qualifiedName prefix) s;
          s2 = addObject r s1
      in case parent of
           None \<Rightarrow> (Some TypeError, s2)
         | Some p \<Rightarrow>
             (case compositionPush p (n_identifier (heap s2 ! r)) s2 of
                (Some e, s3) \<Rightarrow> (Some e, s3)
              | (None, s3) \<Rightarrow>
                  if isAggregate (Parameter nm qn al ty) then
                    (case ty of
                       Some (PType et (Some ms)) \<Rightarrow> addMembers E ms qualifiedName r name s3
                     | _ \<Rightarrow> (None, s3))
                  else (None, s3)))"
| "addMembers E [] qualifiedName r name s = (None, s)"
| "addMembers E (m # ms) qualifiedName r name s =
     (case addParameter E m (qualifiedName @ ''.'' @ p_name m) (Some r) (name @ ''_'') s of
        (None, s') \<Rightarrow> addMembers E ms qualifiedName r name s'
      | (Some e, s') \<Rightarrow> (Some e, s'))"

definition addParameterObject :: "imported \<Rightarrow> parameter \<Rightarrow> provider \<Rightarrow> error option \<times> provider" where
  "addParameterObject E parameter s =
     (if \<not> isSuppressed parameter then
        (case p_qualifiedName parameter of
           None \<Rightarrow> (Some TypeError, s)
         | Some qn \<Rightarrow>
             let lastSlashPos = lastIndexOf qn CHR ''/'';
                 parentId = qualifiedNameToId E (substring0 qn lastSlashPos);
                 parent = objects s parentId
             in addParameter E parameter qn parent [] s)
      else (None, s))"

text \<open>
  The body of the innermost \<open>then\<close> of \<open>fetchTelemetryDictionary\<close>, run once both
  collections have arrived.  The comparator given to the first \<open>sort\<close> has a block body
  without \<open>return\<close>: its result is \<open>undefined\<close>.  \<open>parameters\<close> is \<open>None\<close> when the
  reply has no \<open>parameters\<close> member.
\<close>

definition buildDictionary ::
  "imported \<Rightarrow> spaceSystem list \<Rightarrow> parameter list option \<Rightarrow> provider \<Rightarrow> error option \<times> provider"
where
  "buildDictionary E spaceSystems parameters s =
     (case forEach (addSpaceSystem E) (sort_js (\<lambda>a b. None) spaceSystems) s of
        (Some e, s1) \<Rightarrow> (Some e, s1)
      | (None, s1) \<Rightarrow>
          (case (case parameters of
                   None \<Rightarrow> (None, s1)
                 | Some ps \<Rightarrow> forEach (addParameterObject E) ps s1) of
             (Some e, s2) \<Rightarrow> (Some e, s2)
           | (None, s2) \<Rightarrow> (None, s2\<lparr>dictionaryPromise := None\<rparr>)))"

subsection \<open>Catalog lookups and the shared build\<close>

text \<open>
  The provider runs on one event loop.  A lookup (\<open>get\<close>) is one step; the settling of the
  upstream fetch sequence, the build and the continuations of all lookups that hang on the
  build's promise form the next step (\<open>fetchSettled\<close>): continuations run as microtasks,
  before the host can call again.  The two collections (space systems, then parameters)
  are fetched one after the other; a failure of either rejects the build's promise.
\<close>

datatype lookup = Awaiting | Got "node option" | Failed error

definition dictionaryEntry :: "provider \<Rightarrow> string \<Rightarrow> node option" where
  "dictionaryEntry s k = map_option (\<lambda>r. heap s ! r) (objects s k)"

definition fetchTelemetryDictionary :: "provider \<Rightarrow> provider" where
  "fetchTelemetryDictionary s =
     (if dictionaryPromise s = None
      then s\<lparr>dictionaryPromise := Some Pending, fetches := fetches s + 1\<rparr>
      else s)"

definition get :: "string \<Rightarrow> provider \<Rightarrow> lookup \<times> provider" where
  "get k s =
     (case dictionary s of
        Some ObjectsRef \<Rightarrow> (Got (dictionaryEntry s k), s)
      | None \<Rightarrow>
          let s1 = fetchTelemetryDictionary s
          in case dictionaryPromise s1 of
               Some Pending \<Rightarrow> (Awaiting, s1\<lparr>waiting := waiting s1 @ [k]\<rparr>)
             | Some (Rejected e) \<Rightarrow> (Failed e, s1)
             | None \<Rightarrow> (Failed TypeError, s1))"

text \<open>
  The continuation \<open>(dictionary) => this.dictionary = dictionary\<close> followed by
  \<open>dictionary[identifier.key]\<close>, for one waiting lookup.
\<close>

definition resume :: "string \<Rightarrow> provider \<Rightarrow> lookup \<times> provider" where
  "resume k s = (let s1 = s\<lparr>dictionary := Some ObjectsRef\<rparr> in (Got (dictionaryEntry s1 k), s1))"

fun resumeAll :: "string list \<Rightarrow> provider \<Rightarrow> lookup list \<times> provider" where
  "resumeAll [] s = ([], s)"
| "resumeAll (k # ks) s =
     (let (r, s1) = resume k s; (rs, s2) = resumeAll ks s1 in (r # rs, s2))"

definition reject :: "error \<Rightarrow> provider \<Rightarrow> lookup list \<times> provider" where
  "reject e s =
     (map (\<lambda>k. Failed e) (waiting s), s\<lparr>dictionaryPromise := Some (Rejected e), waiting := []\<rparr>)"

definition fetchSettled ::
  "imported \<Rightarrow> error + spaceSystem list \<times> parameter list option \<Rightarrow> provider \<Rightarrow> lookup list \<times> provider"
where
  "fetchSettled E response s =
     (if dictionaryPromise s = Some Pending then
        (case response of
           Inl e \<Rightarrow> reject e s
         | Inr (spaceSystems, parameters) \<Rightarrow>
             (case buildDictionary E spaceSystems parameters s of
                (Some e, s1) \<Rightarrow> reject e s1
              | (None, s1) \<Rightarrow> resumeAll (waiting s1) (s1\<lparr>waiting := []\<rparr>)))
      else ([], s))"

subsection \<open>A concrete instance of the imports\<close>

text \<open>
  Modelled from the spec: \<open>utils.js\<close> and \<open>const.js\<close> are missing.  The spec describes
  the identifier codec as the qualified name with its path separator replaced by a
  sentinel character, and its inverse; the three type names are distinct strings.  This
  instance serves the evaluations at concrete inputs only.  \<open>compareStrings\<close> orders
  strings by code unit, as \<open>localeCompare\<close> does on lower-case ASCII letters.
\<close>

fun compareStrings :: "string \<Rightarrow> string \<Rightarrow> int" where
  "compareStrings [] [] = 0"
| "compareStrings [] (b # bs) = - 1"
| "compareStrings (a # as) [] = 1"
| "compareStrings (a # as) (b # bs) =
     (if (of_char a :: nat) < of_char b then - 1
      else if (of_char b :: nat) < of_char a then 1
      else compareStrings as bs)"

definition sampleImports :: imported where
  "sampleImports =
     \<lparr>qualifiedNameToId = map (\<lambda>c. if c = CHR ''/'' then CHR ''~'' else c),
      idToQualifiedName = map (\<lambda>c. if c = CHR ''~'' then CHR ''/'' else c),
      localeCompare = compareStrings,
      TELEMETRY_OBJECT_TYPE = ''yamcs.telemetry'',
      IMAGE_OBJECT_TYPE = ''yamcs.image'',
      STRING_OBJECT_TYPE = ''yamcs.string'',
      getValue = (\<lambda>v. Inr v),
      limitInformation = (\<lambda>p. Inr JUndefined)\<rparr>"

section \<open>The realtime telemetry provider (\<open>realtime-telemetry-provider.js\<close>)\<close>

subsection \<open>Own properties of an object, in the order of \<open>Object.keys\<close>\<close>

text \<open>
  \<open>this.listener\<close> is a plain object.  Its own properties are kept as an association list
  in creation order: assignment to an existing key keeps the key's place, \<open>delete\<close>
  removes it, a new key comes last.  \<open>Object.keys\<close> lists the keys that are array indices
  (canonical decimal numerals below \<open>2^32 - 1\<close>) first, in ascending numeric order, and
  the others after them in creation order.  A read \<open>this.listener[k]\<close> also sees the
  properties that the object inherits from \<open>Object.prototype\<close>: see \<open>listenerGet\<close>
  below.
\<close>

definition decimal :: "string \<Rightarrow> int" where
  "decimal k = foldl (\<lambda>n c. 10 * n + (of_char c - 48)) 0 k"

definition isArrayIndex :: "string \<Rightarrow> bool" where
  "isArrayIndex k =
     (case k of
        [] \<Rightarrow> False
      | c # cs \<Rightarrow>
          list_all (\<lambda>d. d \<in> set ''0123456789'') k \<and>
          (if c = CHR ''0'' then cs = [] else True) \<and>
          decimal k < 2 ^ 32 - 1)"

definition ownKeys :: "(string \<times> 'a) list \<Rightarrow> string list" where
  "ownKeys l =
     sort_key decimal (filter isArrayIndex (map fst l)) @
     filter (\<lambda>k. \<not> isArrayIndex k) (map fst l)"

subsection \<open>State and effects\<close>

text \<open>
  A wire command stands for the JSON text that \<open>tlmSubscribe\<close> and \<open>tlmUnsubscribe\<close> build
  around a name; an envelope \<open>'[1, 1, ' + seq + ', ' + request + ']'\<close> is kept as the
  pair of its sequence number and its command.
\<close>

datatype command = SubscribeRequest string | UnsubscribeRequest string

datatype ready_state = CONNECTING | OPEN | CLOSING | CLOSED

text \<open>
  \<open>WebSocket.send\<close> throws while the socket is still connecting, transmits on an open
  socket, and silently discards the data on a closing or closed one.  Reading \<open>send\<close> of
  an \<open>undefined\<close> socket throws too.
\<close>

datatype send_outcome = Transmitted | Discarded | Threw

record point =
  pt_id :: string
  pt_timestamp :: json
  pt_value :: json
  pt_limits :: json

text \<open>
  What the engine does to its environment, in order: \<open>new WebSocket\<close>, \<open>socket.send\<close>
  with the envelope, \<open>setTimeout\<close> with its delay, \<open>clearTimeout\<close> with the handle, and
  the invocation of a callback, with a point or (through \<open>toLocaleString\<close>, see
  \<open>dispatch\<close>) without an argument.  Callbacks are the host's; the model keeps a token
  \<open>'cb\<close> for each.
\<close>

datatype 'cb effect =
    NewSocket
  | Send nat command send_outcome
  | SetTimeout nat
  | ClearTimeout "nat option"
  | Invoke 'cb point
  | InvokeNoArgs 'cb

text \<open>
  \<open>reconnectTimeout\<close> holds the handle of a timer or is \<open>undefined\<close>; a handle is
  modelled by the delay of the timer it names.  \<open>socket\<close> is the \<open>readyState\<close> of
  \<open>this.socket\<close>, \<open>None\<close> before the first \<open>connect\<close>.
\<close>

record 'cb engine =
  seqNo :: nat
  connected :: bool
  listener :: "(string \<times> 'cb) list"
  requests :: "command list"
  currentWaitIndex :: nat
  reconnectTimeout :: "nat option"
  socket :: "ready_state option"
  effects :: "'cb effect list"

definition FALLBACK_AND_WAIT_MS :: "nat list" where
  "FALLBACK_AND_WAIT_MS = [1000, 5000, 5000, 10000, 10000, 30000]"

text \<open>
  The constructor.  The table \<open>supportedTypes\<close> serves \<open>supportsSubscribe\<close> only and is
  left out.
\<close>

definition RealtimeTelemetryProvider :: "'cb engine" where
  "RealtimeTelemetryProvider =
     \<lparr>seqNo = 0, connected = False, listener = [], requests = [], currentWaitIndex = 0,
      reconnectTimeout = None, socket = None, effects = []\<rparr>"

definition perform :: "'cb effect \<Rightarrow> 'cb engine \<Rightarrow> 'cb engine" where
  "perform e s = s\<lparr>effects := effects s @ [e]\<rparr>"

subsection \<open>Sending\<close>

text \<open>
  \<open>sendRequest\<close> returns whether \<open>socket.send\<close> threw; the counter has been incremented
  by then in either case.
\<close>

definition sendRequest :: "command \<Rightarrow> 'cb engine \<Rightarrow> bool \<times> 'cb engine" where
  "sendRequest request s =
     (let n = seqNo s + 1;
          s1 = s\<lparr>seqNo := n\<rparr>
      in case socket s1 of
           None \<Rightarrow> (True, perform (Send n request Threw) s1)
         | Some CONNECTING \<Rightarrow> (True, perform (Send n request Threw) s1)
         | Some OPEN \<Rightarrow> (False, perform (Send n request Transmitted) s1)
         | Some CLOSING \<Rightarrow> (False, perform (Send n request Discarded) s1)
         | Some CLOSED \<Rightarrow> (False, perform (Send n request Discarded) s1))"

text \<open>
  An index past the end of the schedule would read \<open>undefined\<close>, which \<open>setTimeout\<close>
  takes as \<open>0\<close>.
\<close>

definition reconnect :: "'cb engine \<Rightarrow> 'cb engine" where
  "reconnect s =
     (if reconnectTimeout s \<noteq> None then s
      else
        let wait = (if currentWaitIndex s < length FALLBACK_AND_WAIT_MS
                    then FALLBACK_AND_WAIT_MS ! currentWaitIndex s else 0);
            s1 = perform (SetTimeout wait) (s\<lparr>reconnectTimeout := Some wait\<rparr>)
        in if currentWaitIndex s1 < length FALLBACK_AND_WAIT_MS - 1
           then s1\<lparr>currentWaitIndex := currentWaitIndex s1 + 1\<rparr>
           else s1)"

definition sendOrQueueRequest :: "command \<Rightarrow> 'cb engine \<Rightarrow> 'cb engine" where
  "sendOrQueueRequest request s =
     (if connected s then
        (case sendRequest request s of
           (False, s1) \<Rightarrow> s1
         | (True, s1) \<Rightarrow>
             reconnect (s1\<lparr>connected := False, requests := requests s1 @ [request]\<rparr>))
      else s\<lparr>requests := requests s @ [request]\<rparr>)"

definition tlmSubscribe :: "string \<Rightarrow> 'cb engine \<Rightarrow> 'cb engine" where
  "tlmSubscribe id' s = sendOrQueueRequest (SubscribeRequest id') s"

definition tlmUnsubscribe :: "string \<Rightarrow> 'cb engine \<Rightarrow> 'cb engine" where
  "tlmUnsubscribe id' s = sendOrQueueRequest (UnsubscribeRequest id') s"

text \<open>
  \<open>flushQueue\<close>: \<open>filter\<close> visits every queued request, whatever happened to the ones
  before it; a request stays in the queue exactly when its send threw.  \<open>flushStep\<close> is
  the callback, with the requests kept so far and \<open>shouldReconnect\<close> carried along.
\<close>

definition flushStep ::
  "command \<Rightarrow> command list \<times> bool \<times> 'cb engine \<Rightarrow> command list \<times> bool \<times> 'cb engine" where
  "flushStep request acc =
     (case acc of (kept, shouldReconnect, s) \<Rightarrow>
        (case sendRequest request s of
           (True, s1) \<Rightarrow> (kept @ [request], True, s1\<lparr>connected := False\<rparr>)
         | (False, s1) \<Rightarrow> (kept, shouldReconnect, s1)))"

definition flushQueue :: "'cb engine \<Rightarrow> 'cb engine" where
  "flushQueue s =
     (case fold flushStep (requests s) ([], False, s) of
        (kept, shouldReconnect, s1) \<Rightarrow>
          let s2 = s1\<lparr>requests := kept\<rparr>
          in if shouldReconnect then reconnect s2 else s2)"

subsection \<open>Subscriptions\<close>

text \<open>
  The function that \<open>subscribeToTelemetry\<close> returns closes over \<open>name\<close> and \<open>id\<close> (written \<open>id'\<close> here); a
  handle is that pair, and \<open>unsubscribe\<close> is the function's body.
\<close>

type_synonym handle = "string \<times> string"

definition subscribeToTelemetry :: "string \<Rightarrow> string \<Rightarrow> 'cb engine \<Rightarrow> handle \<times> 'cb engine" where
  "subscribeToTelemetry name id' s = ((name, id'), if connected s then tlmSubscribe name s else s)"

definition subscribe :: "imported \<Rightarrow> string \<Rightarrow> 'cb \<Rightarrow> 'cb engine \<Rightarrow> handle \<times> 'cb engine" where
  "subscribe E id' callback s =
     subscribeToTelemetry (idToQualifiedName E id') id'
       (s\<lparr>listener := AList.update id' callback (listener s)\<rparr>)"

definition unsubscribe :: "handle \<Rightarrow> 'cb engine \<Rightarrow> 'cb engine" where
  "unsubscribe h s =
     (case h of (name, id') \<Rightarrow>
        let s1 = tlmUnsubscribe name s
        in s1\<lparr>listener := AList.delete id' (listener s1)\<rparr>)"

definition resubscribeToAll :: "imported \<Rightarrow> 'cb engine \<Rightarrow> 'cb engine" where
  "resubscribeToAll E s =
     fold (\<lambda>id'. tlmSubscribe (idToQualifiedName E id')) (ownKeys (listener s)) s"

subsection \<open>Connection life cycle\<close>

definition connect :: "'cb engine \<Rightarrow> 'cb engine" where
  "connect s =
     (if connected s then s
      else perform NewSocket (s\<lparr>seqNo := 0, connected := False, socket := Some CONNECTING\<rparr>))"

definition onopen :: "imported \<Rightarrow> 'cb engine \<Rightarrow> 'cb engine" where
  "onopen E s =
     (let s1 = perform (ClearTimeout (reconnectTimeout s)) s;
          s2 = s1\<lparr>connected := True\<rparr>;
          s3 = s2\<lparr>currentWaitIndex := 0\<rparr>;
          s4 = resubscribeToAll E s3
      in flushQueue s4)"

definition onerror :: "'cb engine \<Rightarrow> 'cb engine" where
  "onerror s = reconnect (s\<lparr>connected := False\<rparr>)"

definition onclose :: "'cb engine \<Rightarrow> 'cb engine" where
  "onclose s = reconnect (s\<lparr>connected := False\<rparr>)"

text \<open>The function given to \<open>setTimeout\<close> by \<open>reconnect\<close>.\<close>

definition reconnectTimer :: "'cb engine \<Rightarrow> 'cb engine" where
  "reconnectTimer s = (connect s)\<lparr>reconnectTimeout := None\<rparr>"

subsection \<open>Inbound frames\<close>

text \<open>
  \<open>v[k]\<close> for the property names the handler reads in a frame (none of them is a
  property of a string, an array, a number or a boolean, nor of \<open>Object.prototype\<close>): a
  \<open>TypeError\<close> on \<open>undefined\<close> and \<open>null\<close>, the property or \<open>undefined\<close> on an object,
  \<open>undefined\<close> on anything else.
\<close>

fun getProp :: "json \<Rightarrow> string \<Rightarrow> error + json" where
  "getProp JUndefined k = Inl TypeError"
| "getProp JNull k = Inl TypeError"
| "getProp (JObj kvs) k = Inr (case map_of kvs k of None \<Rightarrow> JUndefined | Some v \<Rightarrow> v)"
| "getProp v k = Inr JUndefined"

text \<open>
  The point built for one sample, or the exception on the way.  The point's fields are
  computed in the order of the object literal.  The codec is a function on strings: a name
  that is not a string is a \<open>TypeError\<close>.
\<close>

definition makePoint :: "imported \<Rightarrow> json \<Rightarrow> error + point" where
  "makePoint E parameter =
     (case getProp parameter ''id'' of
        Inl e \<Rightarrow> Inl e
      | Inr i \<Rightarrow>
     (case getProp i ''name'' of
        Inl e \<Rightarrow> Inl e
      | Inr (JStr name) \<Rightarrow>
         (case getProp parameter ''generationTimeUTC'' of
            Inl e \<Rightarrow> Inl e
          | Inr t \<Rightarrow>
         (case getProp parameter ''engValue'' of
            Inl e \<Rightarrow> Inl e
          | Inr ev \<Rightarrow>
         (case getValue E ev of
            Inl e \<Rightarrow> Inl e
          | Inr v \<Rightarrow>
         (case limitInformation E parameter of
            Inl e \<Rightarrow> Inl e
          | Inr l \<Rightarrow>
              Inr \<lparr>pt_id = qualifiedNameToId E name, pt_timestamp = t,
                   pt_value = v, pt_limits = l\<rparr>))))
      | Inr _ \<Rightarrow> Inl TypeError))"

text \<open>
  \<open>this.listener[k]\<close>.  The listener is a plain object, so a key that is not an own
  property is looked up in \<open>Object.prototype\<close>.  Its standard properties are all truthy;
  what matters here is what happens when the handler calls one as
  \<open>this.listener[k](point)\<close>, with the listener as \<open>this\<close>:
  \<^item> \<open>constructor\<close>, \<open>hasOwnProperty\<close>, \<open>isPrototypeOf\<close>, \<open>propertyIsEnumerable\<close>,
    \<open>toString\<close>, \<open>valueOf\<close>, \<open>__lookupGetter__\<close> and \<open>__lookupSetter__\<close> return and
    change nothing;
  \<^item> \<open>toLocaleString\<close> calls \<open>this.toString()\<close>, which is a callback if one is
    registered under \<open>toString\<close>;
  \<^item> \<open>__defineGetter__\<close> and \<open>__defineSetter__\<close> throw a \<open>TypeError\<close> (the point is
    taken for the property name and the accessor is missing), and \<open>__proto__\<close> is the
    prototype itself, an object that cannot be called.
  An assignment \<open>this.listener['__proto__'] = callback\<close> would replace the prototype
  instead of creating a property; identifiers are taken to differ from \<open>__proto__\<close> where
  the engine subscribes.
\<close>

datatype builtin = Returns | InvokesToString | Throws

definition objectPrototype :: "string \<Rightarrow> builtin option" where
  "objectPrototype k =
     (if k \<in> set [''constructor'', ''hasOwnProperty'', ''isPrototypeOf'',
                   ''propertyIsEnumerable'', ''toString'', ''valueOf'',
                   ''__lookupGetter__'', ''__lookupSetter__'']
      then Some Returns
      else if k = ''toLocaleString'' then Some InvokesToString
      else if k \<in> set [''__defineGetter__'', ''__defineSetter__'', ''__proto__'']
      then Some Throws
      else None)"

datatype 'cb slot = Own 'cb | Inherited builtin | Undefined

definition listenerGet :: "(string \<times> 'cb) list \<Rightarrow> string \<Rightarrow> 'cb slot" where
  "listenerGet l k =
     (case map_of l k of
        Some callback \<Rightarrow> Own callback
      | None \<Rightarrow>
          (case objectPrototype k of
             Some b \<Rightarrow> Inherited b
           | None \<Rightarrow> Undefined))"

text \<open>
  \<open>if (this.listener[point.id]) { this.listener[point.id](point); }\<close>
\<close>

definition dispatch :: "point \<Rightarrow> 'cb engine \<Rightarrow> error option \<times> 'cb engine" where
  "dispatch point s =
     (case listenerGet (listener s) (pt_id point) of
        Own callback \<Rightarrow> (None, perform (Invoke callback point) s)
      | Inherited Returns \<Rightarrow> (None, s)
      | Inherited InvokesToString \<Rightarrow>
          (case listenerGet (listener s) ''toString'' of
             Own callback \<Rightarrow> (None, perform (InvokeNoArgs callback) s)
           | _ \<Rightarrow> (None, s))
      | Inherited Throws \<Rightarrow> (Some TypeError, s)
      | Undefined \<Rightarrow> (None, s))"

text \<open>The body of the \<open>forEach\<close> in \<open>onmessage\<close>, for one sample.\<close>

definition deliver :: "imported \<Rightarrow> json \<Rightarrow> 'cb engine \<Rightarrow> error option \<times> 'cb engine" where
  "deliver E parameter s =
     (case makePoint E parameter of
        Inl e \<Rightarrow> (Some e, s)
      | Inr point \<Rightarrow> dispatch point s)"

text \<open>
  \<open>onmessage\<close> on the array \<open>data\<close> that \<open>JSON.parse\<close> returned.  Only an array has
  \<open>forEach\<close>.
\<close>

definition onmessage :: "imported \<Rightarrow> json list \<Rightarrow> 'cb engine \<Rightarrow> error option \<times> 'cb engine" where
  "onmessage E data s =
     (if length data < 4 then (None, s)
      else
        (case getProp (data ! 3) ''dt'' of
           Inl e \<Rightarrow> (Some e, s)
         | Inr dataType \<Rightarrow>
             if dataType = JStr ''PARAMETER'' then
               (case getProp (data ! 3) ''data'' of
                  Inl e \<Rightarrow> (Some e, s)
                | Inr d \<Rightarrow>
                    (case getProp d ''parameter'' of
                       Inl e \<Rightarrow> (Some e, s)
                     | Inr (JArr samples) \<Rightarrow> forEach (deliver E) samples s
                     | Inr _ \<Rightarrow> (Some TypeError, s)))
             else (None, s)))"

subsection \<open>Runs of the engine\<close>

text \<open>
  What can happen to an engine: calls by the host (\<open>connect\<close>, \<open>subscribe\<close>, a handle
  returned by \<open>subscribe\<close> for an identifier), a change of \<open>this.socket\<close>'s
  \<open>readyState\<close> by the browser, the events of a socket, and the firing of the reconnect
  timer.  An exception of \<open>onmessage\<close> ends that handler only.
\<close>

datatype 'cb event =
    HostConnect
  | HostSubscribe string 'cb
  | HostUnsubscribe string
  | ReadyState ready_state
  | SocketOpen
  | SocketMessage "json list"
  | SocketError
  | SocketClose
  | TimerFired

fun step :: "imported \<Rightarrow> 'cb event \<Rightarrow> 'cb engine \<Rightarrow> 'cb engine" where
  "step E HostConnect s = connect s"
| "step E (HostSubscribe k callback) s = snd (subscribe E k callback s)"
| "step E (HostUnsubscribe k) s = unsubscribe (idToQualifiedName E k, k) s"
| "step E (ReadyState rs) s = s\<lparr>socket := map_option (\<lambda>_. rs) (socket s)\<rparr>"
| "step E SocketOpen s = onopen E s"
| "step E (SocketMessage data) s = snd (onmessage E data s)"
| "step E SocketError s = onerror s"
| "step E SocketClose s = onclose s"
| "step E TimerFired s = reconnectTimer s"

definition run :: "imported \<Rightarrow> 'cb event list \<Rightarrow> 'cb engine \<Rightarrow> 'cb engine" where
  "run E evs s = fold (step E) evs s"

subsection \<open>Reading the effects\<close>

text \<open>The sequence numbers of all envelopes handed to \<open>send\<close>, oldest first.\<close>

fun sendNumbers :: "'cb effect list \<Rightarrow> nat list" where
  "sendNumbers [] = []"
| "sendNumbers (Send n c out # es) = n # sendNumbers es"
| "sendNumbers (e # es) = sendNumbers es"

text \<open>
  \<open>numbered n es\<close>: with \<open>n\<close> the number of the last envelope, the envelopes in \<open>es\<close>
  are numbered consecutively, starting again from \<open>1\<close> after every new socket;
  \<open>lastNumber n es\<close> is the number of the last envelope after \<open>es\<close>.
\<close>

fun numbered :: "nat \<Rightarrow> 'cb effect list \<Rightarrow> bool" where
  "numbered n [] = True"
| "numbered n (NewSocket # es) = numbered 0 es"
| "numbered n (Send k c out # es) = (k = Suc n \<and> numbered k es)"
| "numbered n (e # es) = numbered n es"

fun lastNumber :: "nat \<Rightarrow> 'cb effect list \<Rightarrow> nat" where
  "lastNumber n [] = n"
| "lastNumber n (NewSocket # es) = lastNumber 0 es"
| "lastNumber n (Send k c out # es) = lastNumber k es"
| "lastNumber n (e # es) = lastNumber n es"

text \<open>The delays of the timers set, oldest first.\<close>

fun waits :: "'cb effect list \<Rightarrow> nat list" where
  "waits [] = []"
| "waits (SetTimeout d # es) = d # waits es"
| "waits (e # es) = waits es"

text \<open>
  A failed connection attempt: the socket reports \<open>error\<close>, then \<open>close\<close>, and the timer
  set by \<open>reconnect\<close> fires and connects again.
\<close>

definition failedAttempt :: "'cb engine \<Rightarrow> 'cb engine" where
  "failedAttempt s = reconnectTimer (onclose (onerror s))"

text \<open>Several lookups in a row, with what each returned.\<close>

fun getAll :: "string list \<Rightarrow> provider \<Rightarrow> lookup list \<times> provider" where
  "getAll [] s = ([], s)"
| "getAll (k # ks) s =
     (let (r, s1) = get k s; (rs, s2) = getAll ks s1 in (r # rs, s2))"

text \<open>The part of the state that the lookups read.\<close>

definition lookupState :: "provider \<Rightarrow> dict_ref option \<times> promise option \<times> string list \<times> nat" where
  "lookupState s = (dictionary s, dictionaryPromise s, waiting s, fetches s)"

text \<open>
  The envelopes transmitted for a list of commands when the last number used is \<open>n\<close>.
\<close>

fun envelopes :: "nat \<Rightarrow> command list \<Rightarrow> 'cb effect list" where
  "envelopes n [] = []"
| "envelopes n (q # qs) = Send (Suc n) q Transmitted # envelopes (Suc n) qs"

text \<open>
  The engine's counter agrees with its effects: the envelopes are numbered consecutively
  from \<open>1\<close> after every new socket, and \<open>seqNo\<close> is the last number used.
\<close>

definition wellNumbered :: "'cb engine \<Rightarrow> bool" where
  "wellNumbered s = (numbered 0 (effects s) \<and> lastNumber 0 (effects s) = seqNo s)"

text \<open>
  A sample that the handler can decode and for whose identifier \<open>this.listener[id]\<close> is
  \<open>undefined\<close>: no callback is registered for it and it names no inherited property.
\<close>

definition unregistered :: "imported \<Rightarrow> 'cb engine \<Rightarrow> json \<Rightarrow> bool" where
  "unregistered E s parameter =
     (case makePoint E parameter of
        Inl e \<Rightarrow> False
      | Inr point \<Rightarrow> listenerGet (listener s) (pt_id point) = Undefined)"

text \<open>
  For a listener \<open>l\<close>: the samples of a frame that the handler gets through without an
  exception, and the callback invocations it makes for them, sample by sample.
\<close>

definition passes :: "imported \<Rightarrow> (string \<times> 'cb) list \<Rightarrow> json \<Rightarrow> bool" where
  "passes E l parameter =
     (case makePoint E parameter of
        Inl e \<Rightarrow> False
      | Inr point \<Rightarrow>
          (case listenerGet l (pt_id point) of
             Inherited Throws \<Rightarrow> False
           | _ \<Rightarrow> True))"

definition invocations :: "imported \<Rightarrow> (string \<times> 'cb) list \<Rightarrow> json \<Rightarrow> 'cb effect list" where
  "invocations E l parameter =
     (case makePoint E parameter of
        Inl e \<Rightarrow> []
      | Inr point \<Rightarrow>
          (case listenerGet l (pt_id point) of
             Own callback \<Rightarrow> [Invoke callback point]
           | Inherited InvokesToString \<Rightarrow>
               (case listenerGet l ''toString'' of
                  Own callback \<Rightarrow> [InvokeNoArgs callback]
                | _ \<Rightarrow> [])
           | _ \<Rightarrow> []))"

section \<open>Properties of the dictionary builder\<close>

text \<open>
  A comparator that returns \<open>undefined\<close> makes every pair compare equal, and a stable
  sort then leaves the array as it is.
\<close>

lemma sort_js_undefined: "sort_js (\<lambda>a b. None) xs = xs"
proof -
  have ins: "\<And>x ys. insert_js (\<lambda>a b. None) x ys = x # ys"
    subgoal for x ys by (cases ys) (simp_all add: compareValue_def)
    done
  show ?thesis
    unfolding sort_js_def by (induction xs) (simp_all add: ins)
qed

text \<open>
  With a comparator that is a total preorder, \<open>sort_js\<close> sorts: the model of
  \<open>Array.prototype.sort\<close> is a sort.
\<close>

lemma set_insert_js: "set (insert_js cmp x ys) = insert x (set ys)"
  by (induction ys) auto

lemma sorted_insert_js:
  assumes total: "\<And>a b. 0 < compareValue (cmp a b) \<Longrightarrow> compareValue (cmp b a) \<le> 0"
    and trans: "\<And>a b c. compareValue (cmp a b) \<le> 0 \<Longrightarrow> compareValue (cmp b c) \<le> 0 \<Longrightarrow>
                  compareValue (cmp a c) \<le> 0"
    and "sorted_wrt (\<lambda>a b. compareValue (cmp a b) \<le> 0) ys"
  shows "sorted_wrt (\<lambda>a b. compareValue (cmp a b) \<le> 0) (insert_js cmp x ys)"
  using assms(3)
proof (induction ys)
  case Nil
  show ?case by simp
next
  case (Cons y ys)
  show ?case
  proof (cases "compareValue (cmp x y) \<le> 0")
    case True
    then have "\<forall>z\<in>set ys. compareValue (cmp x z) \<le> 0"
      using Cons.prems trans by auto
    then show ?thesis
      using True Cons.prems by simp
  next
    case False
    then have "compareValue (cmp y x) \<le> 0"
      using total [of x y] by simp
    then show ?thesis
      using False Cons by (simp add: set_insert_js)
  qed
qed

lemma sort_js_sorted:
  assumes "\<And>a b. 0 < compareValue (cmp a b) \<Longrightarrow> compareValue (cmp b a) \<le> 0"
    and "\<And>a b c. compareValue (cmp a b) \<le> 0 \<Longrightarrow> compareValue (cmp b c) \<le> 0 \<Longrightarrow>
           compareValue (cmp a c) \<le> 0"
  shows "sorted_wrt (\<lambda>a b. compareValue (cmp a b) \<le> 0) (sort_js cmp xs) \<and>
         set (sort_js cmp xs) = set xs"
proof (induction xs)
  case Nil
  show ?case by (simp add: sort_js_def)
next
  case (Cons x xs)
  have "sort_js cmp (x # xs) = insert_js cmp x (sort_js cmp xs)"
    by (simp add: sort_js_def)
  then show ?case
    using Cons sorted_insert_js [of cmp "sort_js cmp xs" x, OF assms] by (simp add: set_insert_js)
qed

text \<open>
  Whenever the parent of a parameter that is not suppressed is missing from the mapping,
  \<open>addParameterObject\<close> stores the parameter's node and throws.
\<close>

lemma addParameterObject_missing_parent:
  assumes "\<not> isSuppressed p" and "p_qualifiedName p = Some qn"
    and "objects s (qualifiedNameToId E (substring0 qn (lastIndexOf qn CHR ''/''))) = None"
  shows "fst (addParameterObject E p s) = Some TypeError \<and>
         dictionaryEntry (snd (addParameterObject E p s)) (qualifiedNameToId E qn) =
           Some (parameterObject E (providerNamespace s) p qn [])"
proof (cases p)
  case (Parameter nm q al ty)
  have k: "key (n_identifier (parameterObject E (providerNamespace s) p qn [])) = qualifiedNameToId E qn"
    by (simp add: parameterObject_def Let_def)
  show ?thesis
    using assms k unfolding Parameter
    by (simp add: addParameterObject_def alloc_def addObject_def dictionaryEntry_def Let_def)
qed

text \<open>
  Claim C1 says that a non-suppressed parameter whose parent folder is not in the mapping
  is dropped silently: the build completes without error and no node for the parameter
  enters the mapping.  The code does neither.  For the parameter \<open>/Sat/Temp\<close> with no
  space system \<open>/Sat\<close>, the lookup of the parent gives \<open>undefined\<close>; \<open>addParameter\<close>
  stores the new node under \<open>~Sat~Temp\<close> and then throws a \<open>TypeError\<close> on
  \<open>parent.composition\<close>.  The build's promise is rejected, the waiting lookup fails, and
  the rejected promise stays in \<open>dictionaryPromise\<close>.
\<close>

theorem missing_parent_fails_build:
  "let p = Parameter ''Temp'' (Some ''/Sat/Temp'') None (Some (PType (Some ''float'') None));
       (r, s1) = get ''~Sat~Temp'' (YamcsObjectProvider f);
       (rs, s2) = fetchSettled sampleImports (Inr ([], Some [p])) s1
   in \<not> isSuppressed p \<and>
      objects s1 (qualifiedNameToId sampleImports ''/Sat'') = None \<and>
      r = Awaiting \<and> rs = [Failed TypeError] \<and>
      map_option n_name (dictionaryEntry s2 ''~Sat~Temp'') = Some ''Temp'' \<and>
      dictionaryPromise s2 = Some (Rejected TypeError)"
  by (simp add: get_def fetchTelemetryDictionary_def fetchSettled_def buildDictionary_def
      sort_js_undefined YamcsObjectProvider_def createRootObject_def alloc_def addObject_def
      addParameterObject_def isSuppressed_def lastIndexOf_def substring0_def sampleImports_def
      parameterObject_def isAggregate_def reject_def dictionaryEntry_def Let_def)

text \<open>
  Claim C3 says that after a metadata fetch has failed, the failure reaches every waiting
  lookup, nothing is cached, and the next lookup starts a fresh build with a new fetch
  sequence.  The first two hold; the third does not.  \<open>dictionaryPromise\<close> is cleared only
  at the end of a successful build, so after a failure it keeps the rejected promise:
  the next lookup gets the earlier failure back, and no second fetch sequence is started.
\<close>

theorem failed_build_is_never_retried:
  "let (r1, s1) = get k (YamcsObjectProvider f);
       (rs, s2) = fetchSettled E (Inl e) s1;
       (r2, s3) = get k' s2
   in r1 = Awaiting \<and> fetches s1 = 1 \<and> rs = [Failed e] \<and>
      r2 = Failed e \<and> fetches s3 = 1 \<and>
      dictionaryPromise s3 = Some (Rejected e) \<and> dictionary s3 = None"
  by (simp add: get_def fetchTelemetryDictionary_def fetchSettled_def reject_def
      YamcsObjectProvider_def createRootObject_def alloc_def addObject_def Let_def)

text \<open>
  The sort of the subsidiary space systems has a comparator that returns: the composition
  of a folder made from its \<open>sub\<close> list is sorted by name.
\<close>

lemma sub_folders_are_sorted:
  "n_composition
     (heap (snd (addSpaceSystem sampleImports
                   (SpaceSystem ''Sat'' ''/Sat''
                      (Some [SpaceSystem ''b'' ''/Sat/b'' None, SpaceSystem ''a'' ''/Sat/a'' None,
                             SpaceSystem ''c'' ''/Sat/c'' None]))
                   (YamcsObjectProvider f))) ! 1) =
   Some [\<lparr>key = ''~Sat~a'', namespace = ''taxonomy''\<rparr>,
         \<lparr>key = ''~Sat~b'', namespace = ''taxonomy''\<rparr>,
         \<lparr>key = ''~Sat~c'', namespace = ''taxonomy''\<rparr>]"
  by (simp add: addSpaceSystem_def sort_js_def compareValue_def sampleImports_def
      YamcsObjectProvider_def createRootObject_def alloc_def addObject_def lastIndexOf_def
      compositionPush_def Let_def)

text \<open>
  Claim C4 says that the children of a common parent are listed sorted by name, and that
  top-level folders \<open>b\<close>, \<open>a\<close>, \<open>c\<close> appear in the root's composition as \<open>a\<close>, \<open>b\<close>,
  \<open>c\<close>.  The comparator of the sort over the space systems has no \<open>return\<close>, so that
  sort changes nothing, and the root's composition lists the top-level folders in the
  order in which the server sent them: \<open>b\<close>, \<open>a\<close>, \<open>c\<close>.  This holds whatever the codec
  and \<open>localeCompare\<close> are.
\<close>

theorem top_level_folders_keep_input_order:
  "let (e, s) = buildDictionary E
                  [SpaceSystem ''b'' ''/b'' None, SpaceSystem ''a'' ''/a'' None,
                   SpaceSystem ''c'' ''/c'' None]
                  None (YamcsObjectProvider f)
   in e = None \<and>
      n_composition (heap s ! rootObject s) =
        Some (map (\<lambda>q. \<lparr>key = qualifiedNameToId E q, namespace = ''taxonomy''\<rparr>)
                  [''/b'', ''/a'', ''/c''])"
  by (simp add: buildDictionary_def sort_js_undefined YamcsObjectProvider_def
      createRootObject_def alloc_def addObject_def addSpaceSystem_def lastIndexOf_def
      compositionPush_def Let_def)

text \<open>
  A leaf given to \<open>addParameter\<close> with a parent that exists ends up in the mapping, under
  the identifier of its qualified name, exactly as \<open>parameterObject\<close> built it.
\<close>

lemma addParameter_leaf_stored:
  assumes "\<not> isAggregate p" and "r < length (heap s)"
  shows "dictionaryEntry (snd (addParameter E p qn (Some r) prefix s)) (qualifiedNameToId E qn) =
         Some (parameterObject E (providerNamespace s) p qn prefix)"
proof (cases p)
  case (Parameter nm q al ty)
  have k: "key (n_identifier (parameterObject E (providerNamespace s) p qn prefix)) = qualifiedNameToId E qn"
    by (simp add: parameterObject_def Let_def)
  show ?thesis
    using assms k unfolding Parameter
    by (simp add: alloc_def addObject_def compositionPush_def dictionaryEntry_def Let_def
        nth_append split: option.splits)
qed

lemma valueField_cases:
  "f_key (valueField E t) = ''value'' \<and>
   f_hints (valueField E t) =
     (if t = STRING_OBJECT_TYPE E then []
      else if t = IMAGE_OBJECT_TYPE E then [(''image'', 1)] else [(''range'', 1)]) \<and>
   f_format (valueField E t) =
     (if t = STRING_OBJECT_TYPE E then None
      else if t = IMAGE_OBJECT_TYPE E then Some ''image'' else None)"
  by (simp add: valueField_def Let_def)

text \<open>
  Claim C5 says that numeric and image leaves carry a \<open>range\<close> hint on their value field,
  string leaves carry no hint, and image leaves have the value format \<open>image\<close>.  For image
  leaves the code replaces the hints: the value field of an image leaf carries the hint
  \<open>image\<close> and no \<open>range\<close> hint.  At the image parameter \<open>/Sat/Cam\<close>:
\<close>

theorem image_leaf_without_range_hint:
  "fst (buildDictionary sampleImports [SpaceSystem ''Sat'' ''/Sat'' None]
          (Some [Parameter ''Cam'' (Some ''/Sat/Cam'')
                   (Some [Alias ''OpenMCT:type'' ''yamcs.image'']) None])
          (YamcsObjectProvider ''myproject'')) = None \<and>
   dictionaryEntry
     (snd (buildDictionary sampleImports [SpaceSystem ''Sat'' ''/Sat'' None]
             (Some [Parameter ''Cam'' (Some ''/Sat/Cam'')
                      (Some [Alias ''OpenMCT:type'' ''yamcs.image'']) None])
             (YamcsObjectProvider ''myproject''))) ''~Sat~Cam'' =
     Some \<lparr>n_identifier = \<lparr>key = ''~Sat~Cam'', namespace = ''taxonomy''\<rparr>,
           n_name = ''Cam'', n_type = IMAGE_OBJECT_TYPE sampleImports, n_location = None,
           n_composition = None,
           n_telemetry =
             Some [\<lparr>f_key = ''value'', f_source = None, f_name = ''Value'',
                    f_format = Some ''image'', f_hints = [(''image'', 1)]\<rparr>,
                   utcField]\<rparr> \<and>
   map_of [(''image'', 1::nat)] ''range'' = None"
  by (simp add: buildDictionary_def sort_js_undefined YamcsObjectProvider_def
      createRootObject_def alloc_def addObject_def addSpaceSystem_def lastIndexOf_def
      compositionPush_def sampleImports_def addParameterObject_def isSuppressed_def
      substring0_def parameterObject_def isAggregate_def getParameterType_def valueField_def
      dictionaryEntry_def Let_def)

text \<open>
  Claim C5 as amended: for every non-aggregate parameter stored below an existing parent,
  with the three type names distinct, the stored leaf has the value field first and the
  timestamp field second, and the value field carries the hint \<open>range\<close> on a numeric
  leaf, no hint on a string leaf, and the hint \<open>image\<close> together with the format
  \<open>image\<close> on an image leaf.
\<close>

theorem leaf_value_field_hints:
  assumes "\<not> isAggregate p" and "r < length (heap s)"
    and "distinct [TELEMETRY_OBJECT_TYPE E, STRING_OBJECT_TYPE E, IMAGE_OBJECT_TYPE E]"
  shows "\<exists>obj v. dictionaryEntry (snd (addParameter E p qn (Some r) prefix s))
                    (qualifiedNameToId E qn) = Some obj \<and>
           n_type obj = getParameterType E p \<and>
           n_telemetry obj = Some [v, utcField] \<and> f_key v = ''value'' \<and>
           (n_type obj = TELEMETRY_OBJECT_TYPE E \<longrightarrow>
              f_hints v = [(''range'', 1)] \<and> f_format v = None) \<and>
           (n_type obj = STRING_OBJECT_TYPE E \<longrightarrow>
              f_hints v = [] \<and> f_format v = None) \<and>
           (n_type obj = IMAGE_OBJECT_TYPE E \<longrightarrow>
              f_hints v = [(''image'', 1)] \<and> f_format v = Some ''image'')"
proof -
  let ?obj = "parameterObject E (providerNamespace s) p qn prefix"
  let ?v = "valueField E (getParameterType E p)"
  have ty: "n_type ?obj = getParameterType E p" and tm: "n_telemetry ?obj = Some [?v, utcField]"
    using assms(1) by (simp_all add: parameterObject_def Let_def)
  show ?thesis
    using addParameter_leaf_stored [OF assms(1,2), of E qn prefix] ty tm assms(3)
      valueField_cases [of E "getParameterType E p"]
    by auto
qed


theorem leaf_value_field_hints_witness:
  "\<not> isAggregate (Parameter ''Cam'' (Some ''/Sat/Cam'')
                     (Some [Alias ''OpenMCT:type'' ''yamcs.image'']) None) \<and>
   0 < length (heap (YamcsObjectProvider ''myproject'')) \<and>
   distinct [TELEMETRY_OBJECT_TYPE sampleImports, STRING_OBJECT_TYPE sampleImports,
             IMAGE_OBJECT_TYPE sampleImports] \<and>
   (\<exists>obj v. dictionaryEntry
               (snd (addParameter sampleImports
                       (Parameter ''Cam'' (Some ''/Sat/Cam'')
                          (Some [Alias ''OpenMCT:type'' ''yamcs.image'']) None)
                       ''/Sat/Cam'' (Some 0) [] (YamcsObjectProvider ''myproject'')))
               ''~Sat~Cam'' = Some obj \<and>
            n_type obj = ''yamcs.image'' \<and>
            n_telemetry obj = Some [v, utcField] \<and>
            f_hints v = [(''image'', 1)] \<and> f_format v = Some ''image'')"
proof -
  let ?p = "Parameter ''Cam'' (Some ''/Sat/Cam'') (Some [Alias ''OpenMCT:type'' ''yamcs.image'']) None"
  have a: "\<not> isAggregate ?p"
    by (simp add: isAggregate_def)
  have b: "0 < length (heap (YamcsObjectProvider ''myproject''))"
    by (simp add: YamcsObjectProvider_def createRootObject_def alloc_def addObject_def Let_def)
  have c: "distinct [TELEMETRY_OBJECT_TYPE sampleImports, STRING_OBJECT_TYPE sampleImports,
             IMAGE_OBJECT_TYPE sampleImports]"
    by (simp add: sampleImports_def)
  have t: "getParameterType sampleImports ?p = ''yamcs.image''"
    by (simp add: getParameterType_def)
  have q: "qualifiedNameToId sampleImports ''/Sat/Cam'' = ''~Sat~Cam''"
    by (simp add: sampleImports_def)
  have i: "IMAGE_OBJECT_TYPE sampleImports = ''yamcs.image''"
    by (simp add: sampleImports_def)
  from leaf_value_field_hints [OF a b c, of "''/Sat/Cam''" "[]"]
  obtain obj v where
    "dictionaryEntry (snd (addParameter sampleImports ?p ''/Sat/Cam'' (Some 0) []
        (YamcsObjectProvider ''myproject''))) ''~Sat~Cam'' = Some obj"
    "n_type obj = ''yamcs.image''" "n_telemetry obj = Some [v, utcField]"
    "f_hints v = [(''image'', 1)]" "f_format v = Some ''image''"
    unfolding t q i by blast
  then show ?thesis
    using a b c by blast
qed

subsection \<open>One build for all waiting lookups\<close>

text \<open>The build touches none of the fields that the lookups read, \<open>dictionaryPromise\<close> apart.\<close>

lemma addSpaceSystem_lookupState:
  "lookupState (snd (addSpaceSystem E x s)) = lookupState s"
  by (simp add: addSpaceSystem_def lookupState_def alloc_def addObject_def compositionPush_def
      Let_def split: option.splits)

lemma addParameter_lookupState:
  "lookupState (snd (addParameter E p qn parent prefix s)) = lookupState s"
  "lookupState (snd (addMembers E ms qn r name s)) = lookupState s"
proof (induction E p qn parent prefix s and E ms qn r name s rule: addParameter_addMembers.induct)
  case (1 E nm q al ty qualifiedName parent prefix s)
  let ?obj = "parameterObject E (providerNamespace s) (Parameter nm q al ty) qualifiedName prefix"
  let ?s2 = "addObject (length (heap s)) (s\<lparr>heap := heap s @ [?obj]\<rparr>)"
  have s2: "lookupState ?s2 = lookupState s"
    by (simp add: lookupState_def addObject_def)
  show ?case
  proof (cases parent)
    case None
    then show ?thesis using s2 by (simp add: alloc_def Let_def)
  next
    case (Some p)
    obtain e s3 where push: "compositionPush p (n_identifier (heap ?s2 ! length (heap s))) ?s2 = (e, s3)"
      by (cases "compositionPush p (n_identifier (heap ?s2 ! length (heap s))) ?s2")
    have s3: "lookupState s3 = lookupState s"
      using push s2 by (auto simp: compositionPush_def lookupState_def split: option.splits)
    show ?thesis
    proof (cases e)
      case (Some err)
      then show ?thesis using \<open>parent = Some p\<close> push s3 by (simp add: alloc_def Let_def)
    next
      case None
      note eNone = None
      show ?thesis
      proof (cases "isAggregate (Parameter nm q al ty)")
        case False
        then show ?thesis using \<open>parent = Some p\<close> push s3 eNone by (simp add: alloc_def Let_def)
      next
        case True
        show ?thesis
        proof (cases ty)
          case None
          then show ?thesis using \<open>parent = Some p\<close> push s3 eNone True by (simp add: alloc_def Let_def)
        next
          case (Some t)
          obtain et mo where t: "t = PType et mo" by (cases t)
          show ?thesis
          proof (cases mo)
            case None
            then show ?thesis
              using \<open>parent = Some p\<close> push s3 eNone True Some t by (simp add: alloc_def Let_def)
          next
            case (Some ms)
            have "lookupState (snd (addMembers E ms qualifiedName (length (heap s)) (prefix @ nm) s3)) = lookupState s3"
              using "1.IH" [of "prefix @ nm" "alloc ?obj s" "length (heap s)" "s\<lparr>heap := heap s @ [?obj]\<rparr>" ?s2 p e s3 t et mo ms]
                \<open>parent = Some p\<close> push eNone True \<open>ty = Some t\<close> t Some
              by (simp add: alloc_def)
            then show ?thesis
              using \<open>parent = Some p\<close> push s3 eNone True \<open>ty = Some t\<close> t Some
              by (simp add: alloc_def Let_def)
          qed
        qed
      qed
    qed
  qed
next
  case (2 E qualifiedName r name s)
  then show ?case by simp
next
  case (3 E m ms qualifiedName r name s)
  obtain e s' where st: "addParameter E m (qualifiedName @ ''.'' @ p_name m) (Some r) (name @ ''_'') s = (e, s')"
    by (cases "addParameter E m (qualifiedName @ ''.'' @ p_name m) (Some r) (name @ ''_'') s")
  have a: "lookupState s' = lookupState s"
    using "3.IH"(1) st by simp
  show ?case
  proof (cases e)
    case None
    then show ?thesis using "3.IH"(2) [of e s'] st a by simp
  next
    case (Some err)
    then show ?thesis using st a by simp
  qed
qed


lemma addParameterObject_lookupState:
  "lookupState (snd (addParameterObject E p s)) = lookupState s"
  by (simp add: addParameterObject_def addParameter_lookupState Let_def split: option.splits)

lemma forEach_lookupState:
  assumes "\<And>x s. lookupState (snd (f x s)) = lookupState s"
  shows "lookupState (snd (forEach f xs s)) = lookupState s"
proof (induction xs arbitrary: s)
  case Nil
  show ?case by simp
next
  case (Cons x xs)
  obtain e s' where st: "f x s = (e, s')" by (cases "f x s")
  have "lookupState s' = lookupState s"
    using assms [of x s] st by simp
  then show ?case
    using Cons.IH [of s'] st by (cases e) simp_all
qed

lemma buildDictionary_lookupState:
  assumes "buildDictionary E sps ps s = (e, s')"
  shows "dictionary s' = dictionary s \<and> waiting s' = waiting s \<and> fetches s' = fetches s \<and>
         dictionaryPromise s' = (if e = None then None else dictionaryPromise s)"
proof -
  let ?a = "forEach (addSpaceSystem E) (sort_js (\<lambda>a b. None) sps) s"
  obtain e1 s1 where a: "?a = (e1, s1)" by (cases ?a)
  have s1: "lookupState s1 = lookupState s"
    using forEach_lookupState [of "addSpaceSystem E", OF addSpaceSystem_lookupState] a
    by (metis snd_conv)
  show ?thesis
  proof (cases e1)
    case (Some err)
    then show ?thesis
      using assms a s1 by (auto simp: buildDictionary_def lookupState_def)
  next
    case None
    let ?b = "case ps of None \<Rightarrow> (None, s1) | Some l \<Rightarrow> forEach (addParameterObject E) l s1"
    obtain e2 s2 where b: "?b = (e2, s2)" by (cases ?b)
    have s2: "lookupState s2 = lookupState s1"
    proof (cases ps)
      case None
      then show ?thesis using b by simp
    next
      case (Some l)
      then show ?thesis
        using forEach_lookupState [of "addParameterObject E", OF addParameterObject_lookupState] b
        by (metis option.simps(5) snd_conv)
    qed
    show ?thesis
      using assms a b None s1 s2
      by (cases e2) (auto simp: buildDictionary_def lookupState_def)
  qed
qed

lemma getAll_pending:
  assumes "dictionary s = None" and "dictionaryPromise s = Some Pending"
  shows "getAll ks s = (replicate (length ks) Awaiting, s\<lparr>waiting := waiting s @ ks\<rparr>)"
  using assms
proof (induction ks arbitrary: s)
  case Nil
  then show ?case by simp
next
  case (Cons k ks)
  have g: "get k s = (Awaiting, s\<lparr>waiting := waiting s @ [k]\<rparr>)"
    using Cons.prems by (simp add: get_def fetchTelemetryDictionary_def)
  show ?case
    using Cons.IH [of "s\<lparr>waiting := waiting s @ [k]\<rparr>"] Cons.prems g by simp
qed

lemma getAll_fresh:
  assumes "ks \<noteq> []"
  shows "getAll ks (YamcsObjectProvider f) =
         (replicate (length ks) Awaiting,
          (YamcsObjectProvider f)\<lparr>dictionaryPromise := Some Pending, fetches := Suc 0, waiting := ks\<rparr>)"
proof -
  obtain k ks' where ks: "ks = k # ks'"
    using assms by (cases ks) auto
  let ?s0 = "YamcsObjectProvider f"
  let ?s1 = "?s0\<lparr>dictionaryPromise := Some Pending, fetches := Suc 0, waiting := [k]\<rparr>"
  have init: "dictionary ?s0 = None" "dictionaryPromise ?s0 = None" "waiting ?s0 = []" "fetches ?s0 = 0"
    by (simp_all add: YamcsObjectProvider_def createRootObject_def alloc_def addObject_def Let_def)
  have g: "get k ?s0 = (Awaiting, ?s1)"
    using init by (simp add: get_def fetchTelemetryDictionary_def)
  have "getAll ks' ?s1 = (replicate (length ks') Awaiting, ?s1\<lparr>waiting := waiting ?s1 @ ks'\<rparr>)"
    by (rule getAll_pending) (simp_all add: init)
  then show ?thesis
    unfolding ks using g by simp
qed

lemma resumeAll_eq:
  "resumeAll ks s =
     (map (\<lambda>k. Got (dictionaryEntry s k)) ks,
      if ks = [] then s else s\<lparr>dictionary := Some ObjectsRef\<rparr>)"
proof (induction ks arbitrary: s)
  case Nil
  show ?case by simp
next
  case (Cons k ks)
  have e: "\<And>k'. dictionaryEntry (s\<lparr>dictionary := Some ObjectsRef\<rparr>) k' = dictionaryEntry s k'"
    by (simp add: dictionaryEntry_def)
  show ?case
    using Cons.IH [of "s\<lparr>dictionary := Some ObjectsRef\<rparr>"]
    by (simp add: resume_def e Let_def)
qed

text \<open>
  Claim C8: for every \<open>N \<ge> 1\<close>, \<open>N\<close> lookups issued before the build resolves start
  exactly one upstream fetch sequence and all get the same result; once built, further
  lookups are answered from the cached mapping without another fetch.  Here \<open>ks\<close> are the
  keys of the \<open>N\<close> lookups on a fresh provider and \<open>response\<close> is what the fetch
  sequence yields.  Every lookup is left waiting and one fetch sequence has been started,
  before and after it settles.  The dictionary is cached exactly when the response arrived
  and the build did not throw; then each waiting lookup gets its entry of the one final
  mapping, and any later lookup is answered at once from it, in an unchanged state.
  Otherwise all lookups get the same failure.
\<close>

theorem single_shared_build:
  assumes "ks \<noteq> []"
  shows "let (rs, s1) = getAll ks (YamcsObjectProvider f);
             (ds, s2) = fetchSettled E response s1
         in rs = replicate (length ks) Awaiting \<and> fetches s1 = 1 \<and> fetches s2 = 1 \<and>
            (dictionary s2 = Some ObjectsRef) =
              (case response of
                 Inl e \<Rightarrow> False
               | Inr (sps, ps) \<Rightarrow> fst (buildDictionary E sps ps s1) = None) \<and>
            (case dictionary s2 of
               Some d \<Rightarrow>
                 ds = map (\<lambda>k. Got (dictionaryEntry s2 k)) ks \<and>
                 (\<forall>k'. get k' s2 = (Got (dictionaryEntry s2 k'), s2))
             | None \<Rightarrow> (\<exists>e. ds = map (\<lambda>k. Failed e) ks))"
proof -
  let ?s0 = "YamcsObjectProvider f"
  let ?s1 = "?s0\<lparr>dictionaryPromise := Some Pending, fetches := Suc 0, waiting := ks\<rparr>"
  have init: "dictionary ?s0 = None"
    by (simp add: YamcsObjectProvider_def createRootObject_def alloc_def addObject_def Let_def)
  have ga: "getAll ks ?s0 = (replicate (length ks) Awaiting, ?s1)"
    by (rule getAll_fresh [OF assms])
  have s1: "dictionary ?s1 = None" "fetches ?s1 = 1" "waiting ?s1 = ks"
    "dictionaryPromise ?s1 = Some Pending"
    using init by simp_all
  obtain ds s2 where fs: "fetchSettled E response ?s1 = (ds, s2)"
    by (cases "fetchSettled E response ?s1")
  have main: "fetches s2 = 1 \<and>
      (dictionary s2 = Some ObjectsRef) =
        (case response of Inl e \<Rightarrow> False
         | Inr (sps, ps) \<Rightarrow> fst (buildDictionary E sps ps ?s1) = None) \<and>
      (case dictionary s2 of
         Some d \<Rightarrow> ds = map (\<lambda>k. Got (dictionaryEntry s2 k)) ks \<and>
                   (\<forall>k'. get k' s2 = (Got (dictionaryEntry s2 k'), s2))
       | None \<Rightarrow> (\<exists>e. ds = map (\<lambda>k. Failed e) ks))"
  proof (cases response)
    case (Inl e)
    then show ?thesis
      using fs s1 by (auto simp: fetchSettled_def reject_def)
  next
    case (Inr r)
    obtain sps ps where r: "r = (sps, ps)" by (cases r)
    obtain e s' where b: "buildDictionary E sps ps ?s1 = (e, s')"
      by (cases "buildDictionary E sps ps ?s1")
    note fr = buildDictionary_lookupState [OF b]
    show ?thesis
    proof (cases e)
      case (Some err)
      then show ?thesis
        using fs s1 Inr r b fr by (auto simp: fetchSettled_def reject_def)
    next
      case None
      have ds: "ds = map (\<lambda>k. Got (dictionaryEntry (s'\<lparr>waiting := []\<rparr>) k)) ks"
        and s2: "s2 = s'\<lparr>waiting := [], dictionary := Some ObjectsRef\<rparr>"
        using fs s1 Inr r b fr None assms
        by (auto simp: fetchSettled_def resumeAll_eq)
      have e: "\<And>k. dictionaryEntry s2 k = dictionaryEntry (s'\<lparr>waiting := []\<rparr>) k"
        unfolding s2 by (simp add: dictionaryEntry_def)
      show ?thesis
        using ds e fr s1 Inr r b None
        by (simp add: s2 get_def)
    qed
  qed
  show ?thesis
    using ga fs main s1 by simp
qed


theorem single_shared_build_witness:
  "[''~Sat'', ''nope''] \<noteq> [] \<and>
   (let (rs, s1) = getAll [''~Sat'', ''nope''] (YamcsObjectProvider ''myproject'');
        (ds, s2) = fetchSettled sampleImports
                     (Inr ([SpaceSystem ''Sat'' ''/Sat'' None],
                           Some [Parameter ''Temp'' (Some ''/Sat/Temp'') None
                                   (Some (PType (Some ''float'') None))])) s1
    in rs = [Awaiting, Awaiting] \<and> fetches s1 = 1 \<and> fetches s2 = 1 \<and>
       dictionary s2 = Some ObjectsRef \<and>
       map (\<lambda>d. case d of Got (Some n) \<Rightarrow> Some (n_name n, n_composition n) | _ \<Rightarrow> None) ds =
         [Some (''Sat'', Some [\<lparr>key = ''~Sat~Temp'', namespace = ''taxonomy''\<rparr>]), None] \<and>
       get ''~Sat~Temp'' s2 = (Got (dictionaryEntry s2 ''~Sat~Temp''), s2))"
proof -
  have ne: "[''~Sat'', ''nope''] \<noteq> []"
    by simp
  note t = single_shared_build [OF ne, of "''myproject''" sampleImports
      "Inr ([SpaceSystem ''Sat'' ''/Sat'' None],
            Some [Parameter ''Temp'' (Some ''/Sat/Temp'') None
                    (Some (PType (Some ''float'') None))])"]
  show ?thesis
    using t
    by (simp add: get_def fetchTelemetryDictionary_def fetchSettled_def buildDictionary_def
      sort_js_undefined YamcsObjectProvider_def createRootObject_def alloc_def addObject_def
      addSpaceSystem_def compositionPush_def addParameterObject_def isSuppressed_def
      lastIndexOf_def substring0_def sampleImports_def parameterObject_def isAggregate_def
      getParameterType_def valueField_def resume_def dictionaryEntry_def Let_def)
qed

section \<open>Properties of the realtime provider\<close>

text \<open>The definitions to unfold when an engine is run on concrete events.\<close>

lemmas engine_defs =
  run_def subscribe_def subscribeToTelemetry_def unsubscribe_def tlmSubscribe_def
  tlmUnsubscribe_def sendOrQueueRequest_def sendRequest_def perform_def reconnect_def
  connect_def onopen_def onerror_def onclose_def reconnectTimer_def resubscribeToAll_def
  flushQueue_def flushStep_def ownKeys_def isArrayIndex_def decimal_def
  RealtimeTelemetryProvider_def FALLBACK_AND_WAIT_MS_def sampleImports_def Let_def

subsection \<open>What happens when the socket opens\<close>

text \<open>
  On an open socket no send throws: every command handed to \<open>sendOrQueueRequest\<close> or
  visited by \<open>flushQueue\<close> is transmitted with the next number.
\<close>

lemma sendRequest_open:
  assumes "socket s = Some OPEN"
  shows "sendRequest q s =
         (False, s\<lparr>seqNo := Suc (seqNo s), effects := effects s @ [Send (Suc (seqNo s)) q Transmitted]\<rparr>)"
  using assms by (simp add: sendRequest_def perform_def Let_def)

lemma sendOrQueueRequest_open:
  assumes "socket s = Some OPEN" and "connected s"
  shows "sendOrQueueRequest q s =
         s\<lparr>seqNo := Suc (seqNo s), effects := effects s @ [Send (Suc (seqNo s)) q Transmitted]\<rparr>"
  using assms by (simp add: sendOrQueueRequest_def sendRequest_open)

lemma resubscribe_open:
  assumes "socket s = Some OPEN" and "connected s"
  shows "fold (\<lambda>k. tlmSubscribe (idToQualifiedName E k)) ks s =
         s\<lparr>seqNo := seqNo s + length ks,
           effects := effects s @ envelopes (seqNo s) (map (\<lambda>k. SubscribeRequest (idToQualifiedName E k)) ks)\<rparr>"
  using assms
proof (induction ks arbitrary: s)
  case Nil
  then show ?case by simp
next
  case (Cons k ks)
  let ?s1 = "s\<lparr>seqNo := Suc (seqNo s),
                effects := effects s @ [Send (Suc (seqNo s)) (SubscribeRequest (idToQualifiedName E k)) Transmitted]\<rparr>"
  have one: "tlmSubscribe (idToQualifiedName E k) s = ?s1"
    using Cons.prems by (simp add: tlmSubscribe_def sendOrQueueRequest_open)
  have "fold (\<lambda>k. tlmSubscribe (idToQualifiedName E k)) ks ?s1 =
        ?s1\<lparr>seqNo := seqNo ?s1 + length ks,
            effects := effects ?s1 @ envelopes (seqNo ?s1) (map (\<lambda>k. SubscribeRequest (idToQualifiedName E k)) ks)\<rparr>"
    by (rule Cons.IH) (use Cons.prems in simp_all)
  then show ?case
    using one by simp
qed

lemma flush_open:
  assumes "socket s = Some OPEN"
  shows "fold flushStep qs (kept, b, s) =
         (kept, b, s\<lparr>seqNo := seqNo s + length qs, effects := effects s @ envelopes (seqNo s) qs\<rparr>)"
  using assms
proof (induction qs arbitrary: s)
  case Nil
  then show ?case by simp
next
  case (Cons q qs)
  let ?s1 = "s\<lparr>seqNo := Suc (seqNo s), effects := effects s @ [Send (Suc (seqNo s)) q Transmitted]\<rparr>"
  have one: "flushStep q (kept, b, s) = (kept, b, ?s1)"
    using Cons.prems by (simp add: flushStep_def sendRequest_open)
  have "fold flushStep qs (kept, b, ?s1) =
        (kept, b, ?s1\<lparr>seqNo := seqNo ?s1 + length qs, effects := effects ?s1 @ envelopes (seqNo ?s1) qs\<rparr>)"
    by (rule Cons.IH) (use Cons.prems in simp)
  then show ?case
    using one by simp
qed

lemma envelopes_append:
  "envelopes n (ps @ qs) = envelopes n ps @ envelopes (n + length ps) qs"
  by (induction ps arbitrary: n) simp_all

lemma onopen_open:
  assumes "socket s = Some OPEN"
  shows "onopen E s =
         s\<lparr>connected := True, currentWaitIndex := 0, requests := [],
           seqNo := seqNo s + length (ownKeys (listener s)) + length (requests s),
           effects := effects s @ [ClearTimeout (reconnectTimeout s)] @
             envelopes (seqNo s)
               (map (\<lambda>k. SubscribeRequest (idToQualifiedName E k)) (ownKeys (listener s)) @ requests s)\<rparr>"
proof -
  let ?s3 = "s\<lparr>effects := effects s @ [ClearTimeout (reconnectTimeout s)], connected := True, currentWaitIndex := 0\<rparr>"
  have a: "socket ?s3 = Some OPEN" "connected ?s3"
    using assms by simp_all
  note r = resubscribe_open [OF a, of E "ownKeys (listener s)"]
  let ?s4 = "resubscribeToAll E ?s3"
  have s4: "socket ?s4 = Some OPEN"
    unfolding resubscribeToAll_def using r assms by simp
  show ?thesis
    unfolding onopen_def Let_def perform_def flushQueue_def
    using r flush_open [OF s4, of "requests ?s4" "[]" False]
    by (simp add: resubscribeToAll_def envelopes_append)
qed

text \<open>
  Claim C7: on every successful (re)connection a subscribe command is sent for each
  identifier in the callback mapping before any command of the pending queue, and the
  queue is then drained in FIFO order.  When \<open>onopen\<close> runs on the engine's socket, which
  is open then, the effects it adds are: the \<open>clearTimeout\<close>, one transmitted subscribe
  envelope for each key of the listener (in the order of \<open>Object.keys\<close>), then the queued
  commands in the order of the queue, all numbered consecutively; the queue is empty
  afterwards.  The witness is the scenario of the claim: subscriptions for \<open>a\<close> and \<open>b\<close>,
  a disconnect, an unsubscribe queued meanwhile, and the reconnection.
\<close>

theorem resubscribe_before_queue:
  assumes "socket s = Some OPEN"
  shows "effects (onopen E s) =
           effects s @ [ClearTimeout (reconnectTimeout s)] @
           envelopes (seqNo s)
             (map (\<lambda>k. SubscribeRequest (idToQualifiedName E k)) (ownKeys (listener s)) @
              requests s) \<and>
         requests (onopen E s) = [] \<and> connected (onopen E s)"
  by (simp add: onopen_open [OF assms])

theorem resubscribe_before_queue_witness:
  "socket (run sampleImports
             [HostConnect, ReadyState OPEN, SocketOpen, HostSubscribe ''~a'' ''cbA'',
              HostSubscribe ''~b'' ''cbB'', ReadyState CLOSED, SocketClose, HostUnsubscribe ''~c'',
              TimerFired, ReadyState OPEN]
             RealtimeTelemetryProvider) = Some OPEN \<and>
   drop 6 (effects (onopen sampleImports
             (run sampleImports
                [HostConnect, ReadyState OPEN, SocketOpen, HostSubscribe ''~a'' ''cbA'',
                 HostSubscribe ''~b'' ''cbB'', ReadyState CLOSED, SocketClose, HostUnsubscribe ''~c'',
                 TimerFired, ReadyState OPEN]
                RealtimeTelemetryProvider))) =
     [ClearTimeout None,
      Send 1 (SubscribeRequest ''/a'') Transmitted,
      Send 2 (SubscribeRequest ''/b'') Transmitted,
      Send 3 (UnsubscribeRequest ''/c'') Transmitted] \<and>
   requests (onopen sampleImports
             (run sampleImports
                [HostConnect, ReadyState OPEN, SocketOpen, HostSubscribe ''~a'' ''cbA'',
                 HostSubscribe ''~b'' ''cbB'', ReadyState CLOSED, SocketClose, HostUnsubscribe ''~c'',
                 TimerFired, ReadyState OPEN]
                RealtimeTelemetryProvider)) = []"
proof -
  let ?s = "run sampleImports
             [HostConnect, ReadyState OPEN, SocketOpen, HostSubscribe ''~a'' ''cbA'',
              HostSubscribe ''~b'' ''cbB'', ReadyState CLOSED, SocketClose, HostUnsubscribe ''~c'',
              TimerFired, ReadyState OPEN]
             RealtimeTelemetryProvider"
  have s: "?s = \<lparr>seqNo = 0, connected = False, listener = [(''~a'', ''cbA''), (''~b'', ''cbB'')],
                 requests = [UnsubscribeRequest ''/c''], currentWaitIndex = 1,
                 reconnectTimeout = None, socket = Some OPEN,
                 effects = [NewSocket, ClearTimeout None,
                            Send 1 (SubscribeRequest ''/a'') Transmitted,
                            Send 2 (SubscribeRequest ''/b'') Transmitted,
                            SetTimeout 1000, NewSocket]\<rparr>"
    by (simp add: engine_defs)
  have op: "socket ?s = Some OPEN"
    by (simp add: s)
  show ?thesis
    using resubscribe_before_queue [OF op, of sampleImports]
    unfolding s
    by (simp add: ownKeys_def isArrayIndex_def decimal_def sampleImports_def)
qed

subsection \<open>Handles\<close>

text \<open>
  Claim C10: the handle returned by \<open>subscribe(X, cb1)\<close> removes whatever callback is
  registered for \<open>X\<close> when it is invoked.  After a second \<open>subscribe(X, cb2)\<close> the
  listener holds \<open>cb2\<close> for \<open>X\<close>; invoking the first handle then leaves no callback for
  \<open>X\<close>, and the unsubscribe command for \<open>X\<close>'s name is handed to \<open>send\<close> with the next
  number if the engine is connected (and queued as well if that send throws), or appended
  to the queue if it is not.
\<close>

theorem stale_handle_cancels_newer_subscription:
  "let (h1, s1) = subscribe E X cb1 s;
       (h2, s2) = subscribe E X cb2 s1;
       s3 = unsubscribe h1 s2;
       u = UnsubscribeRequest (idToQualifiedName E X)
   in h1 = (idToQualifiedName E X, X) \<and>
      map_of (listener s2) X = Some cb2 \<and>
      map_of (listener s3) X = None \<and>
      (if connected s2
       then \<exists>out. take (Suc (length (effects s2))) (effects s3) =
                    effects s2 @ [Send (Suc (seqNo s2)) u out] \<and>
                  requests s3 = (if out = Threw then requests s2 @ [u] else requests s2)
       else effects s3 = effects s2 \<and> requests s3 = requests s2 @ [u])"
proof -
  obtain s1 where s1: "subscribe E X cb1 s = ((idToQualifiedName E X, X), s1)"
    by (simp add: subscribe_def subscribeToTelemetry_def)
  obtain s2 where s2: "subscribe E X cb2 s1 = ((idToQualifiedName E X, X), s2)"
    by (simp add: subscribe_def subscribeToTelemetry_def)
  have l2: "map_of (listener s2) X = Some cb2"
    using s2
    by (auto simp: subscribe_def subscribeToTelemetry_def tlmSubscribe_def sendOrQueueRequest_def
        sendRequest_def perform_def reconnect_def Let_def update_Some_unfold
        split: if_splits option.splits ready_state.splits)
  let ?u = "UnsubscribeRequest (idToQualifiedName E X)"
  let ?s3 = "unsubscribe (idToQualifiedName E X, X) s2"
  have l3: "map_of (listener ?s3) X = None"
    by (simp add: unsubscribe_def Let_def delete_conv')
  have rest: "if connected s2
       then \<exists>out. take (Suc (length (effects s2))) (effects ?s3) =
                    effects s2 @ [Send (Suc (seqNo s2)) ?u out] \<and>
                  requests ?s3 = (if out = Threw then requests s2 @ [?u] else requests s2)
       else effects ?s3 = effects s2 \<and> requests ?s3 = requests s2 @ [?u]"
    by (auto simp: unsubscribe_def tlmUnsubscribe_def sendOrQueueRequest_def
        sendRequest_def perform_def reconnect_def Let_def
        split: option.splits ready_state.splits)
  show ?thesis
    using s1 s2 l2 l3 rest by (simp add: Let_def)
qed

subsection \<open>Reconnect waits\<close>

lemma waits_append: "waits (xs @ ys) = waits xs @ waits ys"
  by (induction xs rule: waits.induct) simp_all

lemma waits_envelopes: "waits (envelopes n qs) = []"
  by (induction qs arbitrary: n) simp_all

lemma failedAttempt_step:
  assumes "reconnectTimeout s = None" and "currentWaitIndex s \<le> 5"
  shows "reconnectTimeout (failedAttempt s) = None \<and>
         currentWaitIndex (failedAttempt s) = min (Suc (currentWaitIndex s)) 5 \<and>
         waits (effects (failedAttempt s)) =
           waits (effects s) @ [FALLBACK_AND_WAIT_MS ! currentWaitIndex s]"
  using assms
  by (simp add: failedAttempt_def onerror_def onclose_def reconnect_def reconnectTimer_def
      connect_def perform_def FALLBACK_AND_WAIT_MS_def waits_append Let_def min_def)

lemma failedAttempts:
  assumes "reconnectTimeout s = None" and "currentWaitIndex s = 0"
  shows "reconnectTimeout ((failedAttempt ^^ n) s) = None \<and>
         currentWaitIndex ((failedAttempt ^^ n) s) = min n 5 \<and>
         waits (effects ((failedAttempt ^^ n) s)) =
           waits (effects s) @ map (\<lambda>k. FALLBACK_AND_WAIT_MS ! min k 5) [0..<n]"
proof (induction n)
  case 0
  show ?case using assms by simp
next
  case (Suc n)
  let ?t = "(failedAttempt ^^ n) s"
  have a: "reconnectTimeout ?t = None" and b: "currentWaitIndex ?t = min n 5"
    and c: "waits (effects ?t) = waits (effects s) @ map (\<lambda>k. FALLBACK_AND_WAIT_MS ! min k 5) [0..<n]"
    using Suc.IH by simp_all
  have le: "currentWaitIndex ?t \<le> 5"
    using b by simp
  show ?case
    using failedAttempt_step [OF a le] b c by (simp add: min_def)
qed

lemma held_at_last: "map (\<lambda>k. FALLBACK_AND_WAIT_MS ! min k 5) [5..<n] = replicate (n - 5) 30000"
  by (auto simp: list_eq_iff_nth_eq FALLBACK_AND_WAIT_MS_def min_def)

text \<open>
  Claim C6: reconnect waits follow the schedule 1000, 5000, 5000, 10000, 10000, 30000 ms,
  one step per consecutive failure, and stay at 30000 ms from the sixth on; a successful
  connection makes the next failure wait 1000 ms again.  From an engine with no timer
  pending and the index at \<open>0\<close>, the timers set by \<open>n\<close> consecutive failed attempts have
  the delays of the schedule, the \<open>k\<close>-th (from \<open>0\<close>) being entry \<open>min k 5\<close>; all
  delays after the first five are 30000; and if the socket then opens, the next error sets
  a timer of 1000 ms.
\<close>

theorem backoff_schedule:
  assumes "reconnectTimeout s = None" and "currentWaitIndex s = 0"
  shows "FALLBACK_AND_WAIT_MS = [1000, 5000, 5000, 10000, 10000, 30000] \<and>
         waits (effects ((failedAttempt ^^ n) s)) =
           waits (effects s) @ map (\<lambda>k. FALLBACK_AND_WAIT_MS ! min k 5) [0..<n] \<and>
         drop (length (waits (effects s)) + 5) (waits (effects ((failedAttempt ^^ n) s))) =
           replicate (n - 5) 30000 \<and>
         waits (effects (onerror (onopen E (((failedAttempt ^^ n) s)\<lparr>socket := Some OPEN\<rparr>)))) =
           waits (effects ((failedAttempt ^^ n) s)) @ [1000]"
proof -
  let ?t = "(failedAttempt ^^ n) s"
  note f = failedAttempts [OF assms, of n]
  have d: "drop (length (waits (effects s)) + 5) (waits (effects ?t)) = replicate (n - 5) 30000"
    using f held_at_last [of n] by (simp add: drop_map)
  let ?u = "?t\<lparr>socket := Some OPEN\<rparr>"
  have op: "socket ?u = Some OPEN"
    by simp
  have r: "waits (effects (onerror (onopen E ?u))) = waits (effects ?t) @ [1000]"
    using f
    by (simp add: onopen_open [OF op] onerror_def reconnect_def perform_def waits_append
        waits_envelopes FALLBACK_AND_WAIT_MS_def Let_def)
  show ?thesis
    using f d r by (simp add: FALLBACK_AND_WAIT_MS_def)
qed


theorem backoff_schedule_witness:
  "reconnectTimeout (connect (RealtimeTelemetryProvider :: string engine)) = None \<and>
   currentWaitIndex (connect (RealtimeTelemetryProvider :: string engine)) = 0 \<and>
   waits (effects ((failedAttempt ^^ 8) (connect (RealtimeTelemetryProvider :: string engine)))) =
     [1000, 5000, 5000, 10000, 10000, 30000, 30000, 30000] \<and>
   drop 5 (waits (effects ((failedAttempt ^^ 8)
                             (connect (RealtimeTelemetryProvider :: string engine))))) =
     [30000, 30000, 30000] \<and>
   waits (effects (onerror (onopen sampleImports
       (((failedAttempt ^^ 8) (connect (RealtimeTelemetryProvider :: string engine)))
          \<lparr>socket := Some OPEN\<rparr>)))) =
     [1000, 5000, 5000, 10000, 10000, 30000, 30000, 30000, 1000]"
proof -
  let ?s = "connect (RealtimeTelemetryProvider :: string engine)"
  have a: "reconnectTimeout ?s = None" and b: "currentWaitIndex ?s = 0"
    and w: "waits (effects ?s) = []"
    by (simp_all add: connect_def RealtimeTelemetryProvider_def perform_def)
  have u: "[0..<8] = [0, 1, 2, 3, 4, 5, 6, 7::nat]"
    by (simp add: upt_rec)
  have m: "map (\<lambda>k. FALLBACK_AND_WAIT_MS ! min k 5) [0..<8] =
           [1000, 5000, 5000, 10000, 10000, 30000, 30000, 30000]"
    unfolding u by (simp add: FALLBACK_AND_WAIT_MS_def)
  note t = backoff_schedule [OF a b, of 8 sampleImports]
  have w8: "waits (effects ((failedAttempt ^^ 8) ?s)) =
            [1000, 5000, 5000, 10000, 10000, 30000, 30000, 30000]"
    using t unfolding m w by simp
  have r: "waits (effects (onerror (onopen sampleImports (((failedAttempt ^^ 8) ?s)\<lparr>socket := Some OPEN\<rparr>)))) =
           [1000, 5000, 5000, 10000, 10000, 30000, 30000, 30000, 1000]"
    using t unfolding w8 by simp
  show ?thesis
    unfolding w8 r using a b by simp
qed

subsection \<open>Sequence numbers\<close>

text \<open>Every operation of the engine keeps the counter in step with the envelopes sent.\<close>

lemma numbered_append:
  "numbered n (es @ fs) = (numbered n es \<and> numbered (lastNumber n es) fs)"
  by (induction n es rule: numbered.induct) auto

lemma lastNumber_append:
  "lastNumber n (es @ fs) = lastNumber (lastNumber n es) fs"
  by (induction n es rule: lastNumber.induct) auto

lemma wellNumbered_sendRequest:
  assumes "wellNumbered s"
  shows "wellNumbered (snd (sendRequest q s))"
  using assms
  by (auto simp: wellNumbered_def sendRequest_def perform_def numbered_append lastNumber_append
      Let_def split: option.splits ready_state.splits)

lemma wellNumbered_reconnect:
  assumes "wellNumbered s"
  shows "wellNumbered (reconnect s)"
  using assms
  by (auto simp: wellNumbered_def reconnect_def perform_def numbered_append lastNumber_append
      Let_def)

lemma wellNumbered_sendOrQueueRequest:
  assumes "wellNumbered s"
  shows "wellNumbered (sendOrQueueRequest q s)"
proof -
  obtain b s1 where sr: "sendRequest q s = (b, s1)"
    by (cases "sendRequest q s")
  have s1: "wellNumbered s1"
    using wellNumbered_sendRequest [OF assms, of q] sr by simp
  have "wellNumbered (s1\<lparr>connected := False, requests := requests s1 @ [q]\<rparr>)"
    using s1 by (simp add: wellNumbered_def)
  then have "wellNumbered (reconnect (s1\<lparr>connected := False, requests := requests s1 @ [q]\<rparr>))"
    by (rule wellNumbered_reconnect)
  moreover have "wellNumbered (s\<lparr>requests := requests s @ [q]\<rparr>)"
    using assms by (simp add: wellNumbered_def)
  ultimately show ?thesis
    using sr s1 by (cases b) (simp_all add: sendOrQueueRequest_def)
qed

lemma wellNumbered_resubscribe:
  assumes "wellNumbered s"
  shows "wellNumbered (fold (\<lambda>k. tlmSubscribe (idToQualifiedName E k)) ks s)"
  using assms
  by (induction ks arbitrary: s) (simp_all add: tlmSubscribe_def wellNumbered_sendOrQueueRequest)

lemma wellNumbered_flush:
  assumes "wellNumbered s"
  shows "wellNumbered (snd (snd (fold flushStep qs (kept, b, s))))"
  using assms
proof (induction qs arbitrary: kept b s)
  case Nil
  then show ?case by simp
next
  case (Cons q qs)
  obtain t s1 where sr: "sendRequest q s = (t, s1)"
    by (cases "sendRequest q s")
  have s1: "wellNumbered s1"
    using wellNumbered_sendRequest [OF Cons.prems, of q] sr by simp
  then have s1': "wellNumbered (s1\<lparr>connected := False\<rparr>)"
    by (simp add: wellNumbered_def)
  show ?case
    using sr Cons.IH [OF s1] Cons.IH [OF s1'] by (cases t) (simp_all add: flushStep_def)
qed

lemma wellNumbered_flushQueue:
  assumes "wellNumbered s"
  shows "wellNumbered (flushQueue s)"
proof -
  obtain kept b s1 where f: "fold flushStep (requests s) ([], False, s) = (kept, b, s1)"
    by (cases "fold flushStep (requests s) ([], False, s)") auto
  have s1: "wellNumbered s1"
    using wellNumbered_flush [OF assms, of "requests s" "[]" False] f by simp
  then have s2: "wellNumbered (s1\<lparr>requests := kept\<rparr>)"
    by (simp add: wellNumbered_def)
  show ?thesis
    using f s2 wellNumbered_reconnect [OF s2] by (simp add: flushQueue_def Let_def)
qed

lemma wellNumbered_onopen:
  assumes "wellNumbered s"
  shows "wellNumbered (onopen E s)"
proof -
  have "wellNumbered (perform (ClearTimeout (reconnectTimeout s)) s\<lparr>connected := True, currentWaitIndex := 0\<rparr>)"
    using assms by (simp add: wellNumbered_def perform_def numbered_append lastNumber_append)
  then show ?thesis
    unfolding onopen_def Let_def resubscribeToAll_def
    by (intro wellNumbered_flushQueue wellNumbered_resubscribe) simp
qed

lemma wellNumbered_connect:
  assumes "wellNumbered s"
  shows "wellNumbered (connect s)"
  using assms
  by (simp add: wellNumbered_def connect_def perform_def numbered_append lastNumber_append)

lemma wellNumbered_subscribe:
  assumes "wellNumbered s"
  shows "wellNumbered (snd (subscribe E k c s))"
proof -
  have "wellNumbered (s\<lparr>listener := AList.update k c (listener s)\<rparr>)"
    using assms by (simp add: wellNumbered_def)
  then show ?thesis
    by (simp add: subscribe_def subscribeToTelemetry_def tlmSubscribe_def
        wellNumbered_sendOrQueueRequest)
qed

lemma wellNumbered_unsubscribe:
  assumes "wellNumbered s"
  shows "wellNumbered (unsubscribe h s)"
proof -
  obtain name k where h: "h = (name, k)" by (cases h)
  have "wellNumbered (tlmUnsubscribe name s)"
    using assms by (simp add: tlmUnsubscribe_def wellNumbered_sendOrQueueRequest)
  then show ?thesis
    by (simp add: h unsubscribe_def Let_def wellNumbered_def)
qed

lemma wellNumbered_deliver:
  assumes "wellNumbered s"
  shows "wellNumbered (snd (deliver E p s))"
  using assms
  by (auto simp: deliver_def dispatch_def wellNumbered_def perform_def numbered_append
      lastNumber_append split: sum.splits slot.splits builtin.splits)

lemma wellNumbered_forEach:
  assumes "\<And>x s. wellNumbered s \<Longrightarrow> wellNumbered (snd (f x s))" and "wellNumbered s"
  shows "wellNumbered (snd (forEach f xs s))"
  using assms(2)
proof (induction xs arbitrary: s)
  case Nil
  then show ?case by simp
next
  case (Cons x xs)
  obtain e s' where st: "f x s = (e, s')" by (cases "f x s")
  have "wellNumbered s'"
    using assms(1) [OF Cons.prems, of x] st by simp
  then show ?case
    using Cons.IH [of s'] st by (cases e) simp_all
qed

lemma wellNumbered_onmessage:
  assumes "wellNumbered s"
  shows "wellNumbered (snd (onmessage E d s))"
  using assms wellNumbered_forEach [of "deliver E", OF wellNumbered_deliver assms]
  by (auto simp: onmessage_def split: sum.splits json.splits)

lemma wellNumbered_step:
  assumes "wellNumbered s"
  shows "wellNumbered (step E ev s)"
proof (cases ev)
  case HostConnect
  then show ?thesis using assms by (simp add: wellNumbered_connect)
next
  case (HostSubscribe k c)
  then show ?thesis using assms by (simp add: wellNumbered_subscribe)
next
  case (HostUnsubscribe k)
  then show ?thesis using assms by (simp add: wellNumbered_unsubscribe)
next
  case (ReadyState rs)
  then show ?thesis using assms by (simp add: wellNumbered_def)
next
  case SocketOpen
  then show ?thesis using assms by (simp add: wellNumbered_onopen)
next
  case (SocketMessage d)
  then show ?thesis using assms by (simp add: wellNumbered_onmessage)
next
  case SocketError
  have "wellNumbered (s\<lparr>connected := False\<rparr>)"
    using assms by (simp add: wellNumbered_def)
  then show ?thesis using SocketError by (simp add: onerror_def wellNumbered_reconnect)
next
  case SocketClose
  have "wellNumbered (s\<lparr>connected := False\<rparr>)"
    using assms by (simp add: wellNumbered_def)
  then show ?thesis using SocketClose by (simp add: onclose_def wellNumbered_reconnect)
next
  case TimerFired
  have "wellNumbered (connect s)"
    using assms by (rule wellNumbered_connect)
  then show ?thesis using TimerFired by (simp add: reconnectTimer_def wellNumbered_def)
qed

lemma wellNumbered_run:
  assumes "wellNumbered s"
  shows "wellNumbered (run E evs s)"
  using assms unfolding run_def
  by (induction evs arbitrary: s) (simp_all add: wellNumbered_step)

text \<open>
  Claim C2 says that sequence numbers start at \<open>1\<close>, grow by \<open>1\<close> per send attempt and
  are never reset, so that of any two sends in the engine's life the earlier one has the
  smaller number.  \<open>connect\<close> sets the counter to \<open>0\<close> each time it opens a socket.  In
  the run below a subscription is sent with number \<open>1\<close>, the socket closes, the timer
  reconnects, and the resubscription on the new socket is sent with number \<open>1\<close> again.
\<close>

theorem sequence_numbers_repeat_after_reconnect:
  "sendNumbers (effects (run sampleImports
      [HostConnect, ReadyState OPEN, SocketOpen, HostSubscribe ''~a'' ''cbA'',
       ReadyState CLOSED, SocketError, SocketClose, TimerFired, ReadyState OPEN, SocketOpen]
      RealtimeTelemetryProvider)) = [1, 1] \<and>
   \<not> sorted_wrt (<) (sendNumbers (effects (run sampleImports
      [HostConnect, ReadyState OPEN, SocketOpen, HostSubscribe ''~a'' ''cbA'',
       ReadyState CLOSED, SocketError, SocketClose, TimerFired, ReadyState OPEN, SocketOpen]
      RealtimeTelemetryProvider)))"
proof -
  have e: "effects (run sampleImports
      [HostConnect, ReadyState OPEN, SocketOpen, HostSubscribe ''~a'' ''cbA'',
       ReadyState CLOSED, SocketError, SocketClose, TimerFired, ReadyState OPEN, SocketOpen]
      RealtimeTelemetryProvider) =
      [NewSocket, ClearTimeout None, Send 1 (SubscribeRequest ''/a'') Transmitted,
       SetTimeout 1000, NewSocket, ClearTimeout None,
       Send 1 (SubscribeRequest ''/a'') Transmitted]"
    by (simp add: engine_defs)
  show ?thesis
    unfolding e by simp
qed

text \<open>
  Claim C2 as amended: after every new socket the envelopes are numbered from \<open>1\<close>, each
  send attempt taking the next number, so that between two connects an earlier send has a
  smaller number than a later one; \<open>connect\<close> resets the counter to \<open>0\<close> whenever it opens
  a socket (that is, when the engine is not connected).  This holds after every sequence of
  events, from the engine as constructed.
\<close>

theorem numbers_restart_with_every_socket:
  "numbered 0 (effects (run E evs RealtimeTelemetryProvider)) \<and>
   lastNumber 0 (effects (run E evs RealtimeTelemetryProvider)) =
     seqNo (run E evs RealtimeTelemetryProvider) \<and>
   seqNo (connect s) = (if connected s then seqNo s else 0)"
proof -
  have "wellNumbered (RealtimeTelemetryProvider :: 'a engine)"
    by (simp add: wellNumbered_def RealtimeTelemetryProvider_def)
  then have "wellNumbered (run E evs (RealtimeTelemetryProvider :: 'a engine))"
    by (rule wellNumbered_run)
  then show ?thesis
    by (simp add: wellNumbered_def connect_def perform_def)
qed

subsection \<open>Inbound frames: what the handler guards and what it does not\<close>

text \<open>What the handler does get right: a short frame changes nothing.\<close>

lemma onmessage_short:
  assumes "length data < 4"
  shows "onmessage E data s = (None, s)"
  using assms by (simp add: onmessage_def)

text \<open>
  A sample that passes adds its invocations and nothing else; a sample for which
  \<open>this.listener[id]\<close> is \<open>undefined\<close> passes and adds none.
\<close>

lemma deliver_passes:
  assumes "passes E (listener s) p"
  shows "deliver E p s = (None, s\<lparr>effects := effects s @ invocations E (listener s) p\<rparr>)"
  using assms
  by (auto simp: passes_def invocations_def deliver_def dispatch_def perform_def
      split: sum.splits slot.splits builtin.splits)

lemma unregistered_passes:
  assumes "unregistered E s p"
  shows "passes E (listener s) p \<and> invocations E (listener s) p = []"
  using assms
  by (auto simp: unregistered_def passes_def invocations_def split: sum.splits)

lemma deliver_unregistered:
  assumes "unregistered E s p"
  shows "deliver E p s = (None, s)"
  using unregistered_passes [OF assms] deliver_passes [of E s p] by simp

lemma forEach_passes:
  assumes "list_all (passes E (listener s)) ps"
  shows "forEach (deliver E) ps s =
         (None, s\<lparr>effects := effects s @ concat (map (invocations E (listener s)) ps)\<rparr>)"
  using assms
proof (induction ps arbitrary: s)
  case Nil
  show ?case by simp
next
  case (Cons p ps)
  let ?s1 = "s\<lparr>effects := effects s @ invocations E (listener s) p\<rparr>"
  have one: "deliver E p s = (None, ?s1)"
    using Cons.prems by (simp add: deliver_passes)
  have "forEach (deliver E) ps ?s1 =
        (None, ?s1\<lparr>effects := effects ?s1 @ concat (map (invocations E (listener ?s1)) ps)\<rparr>)"
    by (rule Cons.IH) (use Cons.prems in simp)
  then show ?case
    using one by simp
qed

text \<open>
  So in a parameter frame whose samples all pass, registered or not, exactly the
  registered samples lead to a callback invocation, in the order of the frame.
\<close>

lemma onmessage_passes:
  assumes "4 \<le> length data"
    and "getProp (data ! 3) ''dt'' = Inr (JStr ''PARAMETER'')"
    and "getProp (data ! 3) ''data'' = Inr d"
    and "getProp d ''parameter'' = Inr (JArr samples)"
    and "list_all (passes E (listener s)) samples"
  shows "onmessage E data s =
         (None, s\<lparr>effects := effects s @ concat (map (invocations E (listener s)) samples)\<rparr>)"
  using assms by (simp add: onmessage_def forEach_passes)

text \<open>
  Claim C9 says that inbound frame handling never raises to the caller: frames of fewer
  than four elements are ignored, and a sample for an identifier without a registered
  callback causes neither a callback invocation nor an error.  The handler guards the
  length of the frame and nothing else.  For the frame
  \<open>[1, 4, 7, {"dt": "PARAMETER", "data": {}}]\<close>, whose data carry no list of samples,
  \<open>data[3].data.parameter\<close> is \<open>undefined\<close> and the call of its \<open>forEach\<close> throws a
  \<open>TypeError\<close> out of the handler, whatever the state of the engine.
\<close>

theorem parameter_frame_without_samples_raises:
  "onmessage E
     [JNum 1, JNum 4, JNum 7, JObj [(''dt'', JStr ''PARAMETER''), (''data'', JObj [])]] s =
   (Some TypeError, s)"
  by (simp add: onmessage_def)

text \<open>
  The test \<open>if (this.listener[point.id])\<close> is unguarded in the same way: for a sample
  named \<open>__proto__\<close>, for which no callback is registered, it finds the prototype and the
  call throws.
\<close>

lemma inherited_identifier_raises:
  "onmessage sampleImports
     [JNum 1, JNum 4, JNum 7,
      JObj [(''dt'', JStr ''PARAMETER''),
            (''data'', JObj [(''parameter'', JArr
               [JObj [(''id'', JObj [(''name'', JStr ''__proto__'')]),
                      (''engValue'', JNum 3)]])])]]
     (RealtimeTelemetryProvider :: string engine) =
   (Some TypeError, RealtimeTelemetryProvider)"
  by (simp add: onmessage_def deliver_def makePoint_def dispatch_def listenerGet_def
      objectPrototype_def sampleImports_def RealtimeTelemetryProvider_def)

text \<open>A frame with a registered and an unregistered sample: one invocation, no error.\<close>

lemma mixed_frame_delivers_registered_only:
  "onmessage sampleImports
     [JNum 1, JNum 4, JNum 7,
      JObj [(''dt'', JStr ''PARAMETER''),
            (''data'', JObj [(''parameter'', JArr
               [JObj [(''id'', JObj [(''name'', JStr ''/Sat/Volt'')]), (''engValue'', JNum 3)],
                JObj [(''id'', JObj [(''name'', JStr ''/Sat/Temp'')]), (''engValue'', JNum 5)]])])]]
     (snd (subscribe sampleImports ''~Sat~Temp'' ''cbA'' RealtimeTelemetryProvider)) =
   (None,
    (snd (subscribe sampleImports ''~Sat~Temp'' ''cbA'' RealtimeTelemetryProvider))
      \<lparr>effects := [Invoke ''cbA'' \<lparr>pt_id = ''~Sat~Temp'', pt_timestamp = JUndefined,
                                  pt_value = JNum 5, pt_limits = JUndefined\<rparr>]\<rparr>)"
  by (simp add: onmessage_def deliver_def makePoint_def dispatch_def listenerGet_def
      objectPrototype_def sampleImports_def RealtimeTelemetryProvider_def subscribe_def
      subscribeToTelemetry_def perform_def)

end
